theory Spec2Isabelle
  imports Complex_Main
begin

section \<open>Configuration (config.js)\<close>

text \<open>
  The business rules are read from one configuration object. The model keeps it as a
  record that every operation receives, so that each threshold is visibly read from the
  configuration; \<open>config\<close> below is the object the repository ships.
  \<open>BOOKING_DURATION_HOURS\<close>, \<open>TRAVEL_BUFFER_MINUTES\<close> and \<open>DB_PATH\<close> are not read by the
  scheduling engine and are left out.
\<close>

record config_t =
  BASE_LOCATION :: "real \<times> real"
  MAX_SERVICE_RADIUS_MILES :: real
  MAX_DISTANCE_FROM_ANCHOR_MILES :: real
  MAX_TRAVEL_TIME_FROM_ANCHOR_MINUTES :: int
  MAX_BOOKINGS_PER_DAY :: int
  DEFAULT_TIME_SLOTS :: "string list"
  WORK_START_HOUR :: int
  WORK_END_HOUR :: int
  WORKING_DAYS :: "int list"
  MAX_DAYS_TO_SUGGEST :: int

definition config :: config_t where
  "config = \<lparr>
     BASE_LOCATION = (426334 / 10000, - (713162 / 10000)),
     MAX_SERVICE_RADIUS_MILES = 70,
     MAX_DISTANCE_FROM_ANCHOR_MILES = 15,
     MAX_TRAVEL_TIME_FROM_ANCHOR_MINUTES = 30,
     MAX_BOOKINGS_PER_DAY = 3,
     DEFAULT_TIME_SLOTS = [''08:00'', ''11:30'', ''15:00''],
     WORK_START_HOUR = 0,
     WORK_END_HOUR = 24,
     WORKING_DAYS = [0, 1, 2, 3, 4, 5, 6],
     MAX_DAYS_TO_SUGGEST = 14 \<rparr>"

section \<open>Calendar dates\<close>

text \<open>
  A calendar day is its number of days since 1970-01-01 (a Thursday, weekday 4 in
  JavaScript's numbering, where Sunday is 0). The validator builds its \<open>Date\<close> objects
  from the request's date text; what it then observes of such an object is whether it is
  a valid date, its weekday (\<open>getDay\<close>) and its day after \<open>setDate(getDate() + n)\<close>.
  A JavaScript \<open>Date\<close> is therefore either \<open>InvalidDate\<close> or \<open>Day n\<close>.

  The local time zone of the server is taken to be UTC, as on the documented deployment
  target, so that local midnight and the UTC date printed by \<open>toISOString\<close> name the
  same day.
\<close>

datatype js_date = InvalidDate | Day int

text \<open>
  The date field of a request, as the validator reads it: absent (any falsy value),
  a text that \<open>new Date\<close> does not parse, or a calendar day.
\<close>

datatype date_field = NoDate | BadDate | OnDay int

fun parseDate :: "date_field \<Rightarrow> js_date" where
  "parseDate (OnDay n) = Day n"
| "parseDate BadDate = InvalidDate"
| "parseDate NoDate = InvalidDate"

text \<open>\<open>getDay\<close>: the weekday, or \<open>None\<close> for the \<open>NaN\<close> of an invalid date.\<close>

fun getDay :: "js_date \<Rightarrow> int option" where
  "getDay InvalidDate = None"
| "getDay (Day n) = Some ((n + 4) mod 7)"

text \<open>\<open>date.setDate(date.getDate() + k)\<close>; an invalid date stays invalid.\<close>

fun addDays :: "js_date \<Rightarrow> int \<Rightarrow> js_date" where
  "addDays InvalidDate k = InvalidDate"
| "addDays (Day n) k = Day (n + k)"

text \<open>
  \<open>isWorkingDay\<close>: an empty \<open>WORKING_DAYS\<close> falls back to all seven weekdays;
  \<open>includes(NaN)\<close> is false on a list of numbers.
\<close>

definition isWorkingDay :: "config_t \<Rightarrow> js_date \<Rightarrow> bool" where
  "isWorkingDay cfg dateInput =
     (let workingDays = (if WORKING_DAYS cfg \<noteq> [] then WORKING_DAYS cfg
                          else [0, 1, 2, 3, 4, 5, 6])
      in case getDay dateInput of
           None \<Rightarrow> False
         | Some wd \<Rightarrow> wd \<in> set workingDays)"

text \<open>
  The loop of \<open>shiftToWorkingDay\<close>: advance one day at a time while the day is not a
  working day, at most 14 times.
\<close>

function shiftLoop :: "config_t \<Rightarrow> js_date \<Rightarrow> nat \<Rightarrow> js_date" where
  "shiftLoop cfg date safety =
     (if \<not> isWorkingDay cfg date \<and> safety < 14
      then shiftLoop cfg (addDays date 1) (safety + 1)
      else date)"
  by pat_completeness auto
termination
  by (relation "measure (\<lambda>(cfg, date, safety). 14 - safety)") auto

declare shiftLoop.simps [simp del]

definition shiftToWorkingDay :: "config_t \<Rightarrow> js_date \<Rightarrow> bool \<Rightarrow> js_date" where
  "shiftToWorkingDay cfg dateInput includeToday =
     shiftLoop cfg (if \<not> includeToday then addDays dateInput 1 else dateInput) 0"

section \<open>Exceptions and calls to the collaborators\<close>

datatype exn = Error string | RangeError string

text \<open>
  \<open>formatDate\<close> is \<open>toISOString().split('T')[0]\<close>: the day itself, and a
  \<open>RangeError\<close> on an invalid date.
\<close>

fun formatDate :: "js_date \<Rightarrow> exn + int" where
  "formatDate InvalidDate = Inl (RangeError ''Invalid time value'')"
| "formatDate (Day n) = Inr n"


text \<open>
  The validator talks to two collaborators: the maps service (\<open>geocodeAddress\<close>,
  \<open>getDistanceAndTime\<close>) and the booking store (\<open>getBookingsByDate\<close>). Each is a
  parameter of the model; a call either returns or throws. The coordinate texts
  \<open>`${lat},${lng}`\<close> handed to \<open>getDistanceAndTime\<close> are kept as pairs.
  Of a stored booking the engine reads the six fields below; of a distance result it
  reads \<open>distance\<close> and \<open>duration\<close> (the two display texts are not modelled).
  A distance is the real number that its double denotes (the validator only compares
  distances, and comparisons of doubles are exact); counts and travel times are integers.

  The record also carries \<open>Number\<close>, the conversion of a text to a number that the
  engine applies to the fields of a time text. It is a built-in of the language and not
  a collaborator: it is a parameter of the model so that nothing is assumed about the
  texts it accepts, and no call to it is recorded. \<open>None\<close> stands for a result that is
  not a finite number (\<open>NaN\<close>, or an infinity, which behaves as \<open>NaN\<close> does in the
  comparisons made here).
\<close>

record location =
  lat :: real
  lng :: real
  formatted_address :: string

record distance_result =
  distance :: real
  duration :: int

record booking =
  customer_name :: string
  address :: string
  latitude :: real
  longitude :: real
  booking_time :: string
  is_anchor :: bool

record services =
  geocodeAddress :: "string \<Rightarrow> exn + location"
  getDistanceAndTime :: "real \<times> real \<Rightarrow> real \<times> real \<Rightarrow> exn + distance_result"
  getBookingsByDate :: "int \<Rightarrow> exn + booking list"
  Number :: "string \<Rightarrow> real option"

text \<open>
  Every call that reaches a collaborator is recorded, in order, so that a statement such
  as ``the store is not read on this path'' is a statement about the returned trace.
  An asynchronous computation is its outcome together with the calls it made.
\<close>

datatype call =
    geocodeAddress_call string
  | getDistanceAndTime_call "real \<times> real" "real \<times> real"
  | getBookingsByDate_call int

type_synonym 'a async = "(exn + 'a) \<times> call list"

definition ret :: "'a \<Rightarrow> 'a async" where
  "ret x = (Inr x, [])"

definition lift :: "exn + 'a \<Rightarrow> 'a async" where
  "lift r = (r, [])"

text \<open>\<open>await m\<close> followed by the rest of the function; a rejection of \<open>m\<close> propagates.\<close>

definition await :: "'a async \<Rightarrow> ('a \<Rightarrow> 'b async) \<Rightarrow> 'b async" where
  "await m f =
     (case fst m of
        Inl e \<Rightarrow> (Inl e, snd m)
      | Inr x \<Rightarrow> (fst (f x), snd m @ snd (f x)))"

text \<open>\<open>try { m } catch (error) { h error }\<close>.\<close>

definition catch :: "'a async \<Rightarrow> (exn \<Rightarrow> 'a async) \<Rightarrow> 'a async" where
  "catch m h =
     (case fst m of
        Inl e \<Rightarrow> (fst (h e), snd m @ snd (h e))
      | Inr x \<Rightarrow> m)"

fun message :: "exn \<Rightarrow> string" where
  "message (Error m) = m"
| "message (RangeError m) = m"

definition call_geocodeAddress :: "services \<Rightarrow> string \<Rightarrow> location async" where
  "call_geocodeAddress svc a = (geocodeAddress svc a, [geocodeAddress_call a])"

definition call_getDistanceAndTime ::
    "services \<Rightarrow> real \<times> real \<Rightarrow> real \<times> real \<Rightarrow> distance_result async" where
  "call_getDistanceAndTime svc origin destination =
     (getDistanceAndTime svc origin destination, [getDistanceAndTime_call origin destination])"

definition call_getBookingsByDate :: "services \<Rightarrow> int \<Rightarrow> booking list async" where
  "call_getBookingsByDate svc d = (getBookingsByDate svc d, [getBookingsByDate_call d])"

section \<open>Distance checks (bookingValidator.js)\<close>

record distance_check =
  check_valid :: bool
  check_distance :: real
  check_travelTime :: int
  check_anchorAddress :: "string option"

definition checkDistanceFromLowell ::
    "config_t \<Rightarrow> services \<Rightarrow> real \<Rightarrow> real \<Rightarrow> distance_check async" where
  "checkDistanceFromLowell cfg svc lat' lng' =
     await (call_getDistanceAndTime svc (BASE_LOCATION cfg) (lat', lng')) (\<lambda>result.
       ret \<lparr> check_valid = (distance result \<le> MAX_SERVICE_RADIUS_MILES cfg),
             check_distance = distance result,
             check_travelTime = duration result,
             check_anchorAddress = None \<rparr>)"

definition checkDistanceFromAnchor ::
    "config_t \<Rightarrow> services \<Rightarrow> real \<Rightarrow> real \<Rightarrow> real \<Rightarrow> real \<Rightarrow> string \<Rightarrow> distance_check async" where
  "checkDistanceFromAnchor cfg svc lat' lng' anchorLat anchorLng anchorAddress =
     await (call_getDistanceAndTime svc (anchorLat, anchorLng) (lat', lng')) (\<lambda>result.
       let validDistance = (distance result \<le> MAX_DISTANCE_FROM_ANCHOR_MILES cfg);
           validTime = (duration result \<le> MAX_TRAVEL_TIME_FROM_ANCHOR_MINUTES cfg)
       in ret \<lparr> check_valid = (validDistance \<and> validTime),
                check_distance = distance result,
                check_travelTime = duration result,
                check_anchorAddress = Some anchorAddress \<rparr>)"

section \<open>Clock times\<close>

text \<open>
  A booking time is a text such as \<open>''08:00''\<close>. \<open>timeToMinutes\<close> splits it at the colons,
  converts the fields with \<open>Number\<close> and returns \<open>hours * 60 + minutes\<close> of the first two;
  the result is \<open>NaN\<close> (here \<open>None\<close>) when one of them is, or when the second is missing.
\<close>

fun splitOn :: "char \<Rightarrow> string \<Rightarrow> string list" where
  "splitOn sep [] = [[]]"
| "splitOn sep (c # cs) =
     (if c = sep then [] # splitOn sep cs
      else (case splitOn sep cs of
              [] \<Rightarrow> [[c]]
            | p # ps \<Rightarrow> (c # p) # ps))"

definition timeToMinutes :: "services \<Rightarrow> string \<Rightarrow> real option" where
  "timeToMinutes svc timeStr =
     (case map (Number svc) (splitOn CHR '':'' timeStr) of
        Some hours # Some minutes # rest \<Rightarrow> Some (hours * 60 + minutes)
      | _ \<Rightarrow> None)"

text \<open>\<open>String(n).padStart(2, '0')\<close> for an integer \<open>n\<close>.\<close>

fun digitsOf :: "nat \<Rightarrow> string" where
  "digitsOf n =
     (if n < 10 then [''0123456789'' ! n]
      else digitsOf (n div 10) @ [''0123456789'' ! (n mod 10)])"

declare digitsOf.simps [simp del]

definition String :: "int \<Rightarrow> string" where
  "String n = (if n < 0 then CHR ''-'' # digitsOf (nat (- n)) else digitsOf (nat n))"

definition padStart2 :: "string \<Rightarrow> string" where
  "padStart2 s = replicate (2 - length s) CHR ''0'' @ s"

definition hourSlot :: "int \<Rightarrow> string" where
  "hourSlot slotTime = padStart2 (String slotTime) @ '':00''"

section \<open>Time-slot gate and open-slot computation\<close>

text \<open>
  \<open>findAvailableTimeSlots\<close> converts the booking times to minutes, sorts them with the
  comparator \<open>(a, b) => a - b\<close> and proposes a slot before the first booking, one in the
  middle of each gap and one after the last booking. When a booking time is \<open>NaN\<close>
  the comparator is inconsistent and the order the sort leaves is implementation-defined;
  that case, and that of an infinite time, is left out of the model: the result is
  \<open>None\<close>.
\<close>

definition Math_floor :: "real \<Rightarrow> int" where
  "Math_floor x = \<lfloor>x\<rfloor>"

fun gapSlots :: "real list \<Rightarrow> string list" where
  "gapSlots (t # t' # ts) =
     (let minGap = 240; gapStart = t + minGap; gapEnd = t' in
        (if gapEnd - gapStart \<ge> minGap
         then [hourSlot (Math_floor ((gapStart + gapEnd) / 2 / 60))]
         else []) @ gapSlots (t' # ts))"
| "gapSlots ts = []"

definition slotsFor :: "config_t \<Rightarrow> real list \<Rightarrow> string list" where
  "slotsFor cfg bookedTimes =
     (let workStart = real_of_int (WORK_START_HOUR cfg * 60);
          workEnd = real_of_int (WORK_END_HOUR cfg * 60);
          minGap = 240;
          beforeFirst =
            (case bookedTimes of
               [] \<Rightarrow> []
             | first # rest \<Rightarrow>
                 if first - workStart \<ge> minGap
                 then [hourSlot (Math_floor ((workStart + first - minGap) / 60))]
                 else []);
          afterLast =
            (if bookedTimes \<noteq> [] then
               (let lastTime = last bookedTimes in
                  if workEnd - lastTime \<ge> minGap then
                    (let slotTime = Math_floor ((lastTime + minGap) / 60) in
                       if slotTime < WORK_END_HOUR cfg then [hourSlot slotTime] else [])
                  else [])
             else []);
          availableSlots = beforeFirst @ gapSlots bookedTimes @ afterLast
      in if length availableSlots > 0 then availableSlots else [''No available slots''])"

definition findAvailableTimeSlots ::
    "config_t \<Rightarrow> services \<Rightarrow> booking list \<Rightarrow> string list option" where
  "findAvailableTimeSlots cfg svc existingBookings =
     (case those (map (\<lambda>b. timeToMinutes svc (booking_time b)) existingBookings) of
        None \<Rightarrow> None
      | Some bookedTimes \<Rightarrow> Some (slotsFor cfg (sort bookedTimes)))"

record conflict =
  conflict_time :: string
  conflict_customer :: string
  timeDifference :: real

datatype time_check =
    TimeSlotAvailable
  | TimeConflict "conflict list" "string list option"

fun timeCheckValid :: "time_check \<Rightarrow> bool" where
  "timeCheckValid TimeSlotAvailable = True"
| "timeCheckValid (TimeConflict cs ss) = False"

text \<open>The loop over the existing bookings; a comparison with \<open>NaN\<close> is false.\<close>

fun conflictsWith :: "services \<Rightarrow> real option \<Rightarrow> booking list \<Rightarrow> conflict list" where
  "conflictsWith svc requestedMinutes [] = []"
| "conflictsWith svc requestedMinutes (b # bs) =
     (let minGapMinutes = 240 in
        (case (requestedMinutes, timeToMinutes svc (booking_time b)) of
           (Some r, Some bookingMinutes) \<Rightarrow>
             (let timeDiff = \<bar>r - bookingMinutes\<bar> in
                if timeDiff < minGapMinutes
                then [\<lparr> conflict_time = booking_time b,
                        conflict_customer = customer_name b,
                        timeDifference = timeDiff \<rparr>]
                else [])
         | _ \<Rightarrow> [])
        @ conflictsWith svc requestedMinutes bs)"

text \<open>
  The requested time is optional; \<open>!requestedTime\<close> holds when it is absent or the
  empty text.
\<close>

definition checkTimeAvailability ::
    "config_t \<Rightarrow> services \<Rightarrow> booking list \<Rightarrow> string option \<Rightarrow> time_check" where
  "checkTimeAvailability cfg svc existingBookings requestedTime =
     (case requestedTime of
        None \<Rightarrow> TimeSlotAvailable
      | Some t \<Rightarrow>
          if t = [] \<or> length existingBookings = 0 then TimeSlotAvailable
          else
            (let conflicts = conflictsWith svc (timeToMinutes svc t) existingBookings in
               if length conflicts > 0
               then TimeConflict conflicts (findAvailableTimeSlots cfg svc existingBookings)
               else TimeSlotAvailable))"

section \<open>Alternate-date finder\<close>

datatype alternate_reason =
    DayIsAvailable
  | GoodFitWithRoute real
  | DayHasAvailability

record alternate =
  alt_date :: int
  alt_reason :: alternate_reason

text \<open>
  Both loops run \<open>i\<close> from 1 to \<open>MAX_DAYS_TO_SUGGEST\<close>. The first returns the first
  empty day, or the first day below capacity whose anchor is close enough; \<open>None\<close> is
  a loop that ran to its end without returning.
\<close>

fun suggestFirstPass ::
    "config_t \<Rightarrow> services \<Rightarrow> int \<Rightarrow> real \<Rightarrow> real \<Rightarrow> int list \<Rightarrow> alternate option async" where
  "suggestFirstPass cfg svc currentDate lat' lng' [] = ret None"
| "suggestFirstPass cfg svc currentDate lat' lng' (i # rest) =
     (let checkDate = currentDate + i in
        if \<not> isWorkingDay cfg (Day checkDate)
        then suggestFirstPass cfg svc currentDate lat' lng' rest
        else
          await (call_getBookingsByDate svc checkDate) (\<lambda>bookings.
            if length bookings = 0
            then ret (Some \<lparr> alt_date = checkDate, alt_reason = DayIsAvailable \<rparr>)
            else if int (length bookings) < MAX_BOOKINGS_PER_DAY cfg then
              (case find is_anchor bookings of
                 Some anchorBooking \<Rightarrow>
                   await (checkDistanceFromAnchor cfg svc lat' lng'
                            (latitude anchorBooking) (longitude anchorBooking)
                            (address anchorBooking)) (\<lambda>anchorCheck.
                     if check_valid anchorCheck
                     then ret (Some \<lparr> alt_date = checkDate,
                                       alt_reason = GoodFitWithRoute (check_distance anchorCheck) \<rparr>)
                     else suggestFirstPass cfg svc currentDate lat' lng' rest)
               | None \<Rightarrow> suggestFirstPass cfg svc currentDate lat' lng' rest)
            else suggestFirstPass cfg svc currentDate lat' lng' rest))"

fun suggestSecondPass ::
    "config_t \<Rightarrow> services \<Rightarrow> int \<Rightarrow> int list \<Rightarrow> alternate option async" where
  "suggestSecondPass cfg svc currentDate [] = ret None"
| "suggestSecondPass cfg svc currentDate (i # rest) =
     (let checkDate = currentDate + i in
        if \<not> isWorkingDay cfg (Day checkDate)
        then suggestSecondPass cfg svc currentDate rest
        else
          await (call_getBookingsByDate svc checkDate) (\<lambda>bookings.
            if int (length bookings) < MAX_BOOKINGS_PER_DAY cfg
            then ret (Some \<lparr> alt_date = checkDate, alt_reason = DayHasAvailability \<rparr>)
            else suggestSecondPass cfg svc currentDate rest))"

definition suggestAlternateDate ::
    "config_t \<Rightarrow> services \<Rightarrow> int \<Rightarrow> real \<Rightarrow> real \<Rightarrow> alternate option async" where
  "suggestAlternateDate cfg svc requestedDate lat' lng' =
     catch
       (let currentDate = requestedDate; maxDays = MAX_DAYS_TO_SUGGEST cfg in
          await (suggestFirstPass cfg svc currentDate lat' lng' [1..maxDays]) (\<lambda>found.
            case found of
              Some a \<Rightarrow> ret (Some a)
            | None \<Rightarrow> suggestSecondPass cfg svc currentDate [1..maxDays]))
       (\<lambda>error. ret None)"

section \<open>The booking validator\<close>

text \<open>
  A request carries the address, the date field and the optional requested time; the
  auto-scheduler also reads \<open>preferred_start_date\<close>.
\<close>

record booking_request =
  request_address :: string
  request_booking_date :: date_field
  request_booking_time :: "string option"
  preferred_start_date :: date_field

text \<open>
  One constructor for each object the validator returns, named by its \<open>reason\<close> and
  carrying the fields of that object (the display \<open>message\<close> apart):
  \<open>non_working_day nextWorkingDate\<close>, \<open>outside_service_area details\<close>,
  \<open>day_full count alternateDate\<close>,
  \<open>anchor_booking geocode distanceFromLowell travelTimeFromLowell\<close>,
  \<open>too_far_from_anchor details alternateDate\<close>, \<open>time_conflict suggestedTimes\<close>,
  \<open>valid_booking geocode distanceFromLowell travelTimeFromLowell distanceFromAnchor
  travelTimeFromAnchor\<close>, \<open>validation_error message\<close>.
\<close>

datatype verdict =
    missing_booking_date
  | non_working_day int
  | outside_service_area distance_check
  | day_full nat "alternate option"
  | anchor_booking location real int
  | no_anchor_found location real int
  | too_far_from_anchor distance_check "alternate option"
  | time_conflict "string list option"
  | valid_booking location real int real int
  | validation_error string

fun valid :: "verdict \<Rightarrow> bool" where
  "valid (anchor_booking g d t) = True"
| "valid (no_anchor_found g d t) = True"
| "valid (valid_booking g d t da ta) = True"
| "valid v = False"

fun reason :: "verdict \<Rightarrow> string" where
  "reason missing_booking_date = ''missing_booking_date''"
| "reason (non_working_day n) = ''non_working_day''"
| "reason (outside_service_area c) = ''outside_service_area''"
| "reason (day_full n a) = ''day_full''"
| "reason (anchor_booking g d t) = ''anchor_booking''"
| "reason (no_anchor_found g d t) = ''no_anchor_found''"
| "reason (too_far_from_anchor c a) = ''too_far_from_anchor''"
| "reason (time_conflict ss) = ''time_conflict''"
| "reason (valid_booking g d t da ta) = ''valid_booking''"
| "reason (validation_error m) = ''validation_error''"

text \<open>The \<open>isAnchor\<close> field, where the object has one.\<close>

fun isAnchor :: "verdict \<Rightarrow> bool option" where
  "isAnchor (anchor_booking g d t) = Some True"
| "isAnchor (no_anchor_found g d t) = Some False"
| "isAnchor (valid_booking g d t da ta) = Some False"
| "isAnchor v = None"

text \<open>
  The \<open>alternateDate\<close> field: \<open>None\<close> when the object has no such field,
  \<open>Some None\<close> when it holds \<open>null\<close>, \<open>Some (Some a)\<close> when it holds a suggestion.
\<close>

fun alternateDate :: "verdict \<Rightarrow> alternate option option" where
  "alternateDate (day_full n a) = Some a"
| "alternateDate (too_far_from_anchor c a) = Some a"
| "alternateDate v = None"

fun suggestedTimesOf :: "time_check \<Rightarrow> string list option" where
  "suggestedTimesOf TimeSlotAvailable = None"
| "suggestedTimesOf (TimeConflict cs ss) = ss"

text \<open>
  The branch taken when the date is not a working day. It runs before the \<open>try\<close>
  block, so the \<open>RangeError\<close> of \<open>formatDate\<close> on an invalid date leaves the function.
\<close>

definition nonWorkingDay :: "config_t \<Rightarrow> js_date \<Rightarrow> verdict async" where
  "nonWorkingDay cfg date =
     await (lift (formatDate (shiftToWorkingDay cfg date False))) (\<lambda>nextWorkingDate.
       ret (non_working_day nextWorkingDate))"

text \<open>The gates inside the \<open>try\<close> block, for a request on day \<open>d\<close>.\<close>

definition validateOnDay ::
    "config_t \<Rightarrow> services \<Rightarrow> booking_request \<Rightarrow> int \<Rightarrow> verdict async" where
  "validateOnDay cfg svc bookingRequest d =
     await (call_geocodeAddress svc (request_address bookingRequest)) (\<lambda>geocodeResult.
     await (checkDistanceFromLowell cfg svc (lat geocodeResult) (lng geocodeResult)) (\<lambda>lowellCheck.
       if \<not> check_valid lowellCheck then ret (outside_service_area lowellCheck)
       else
     await (call_getBookingsByDate svc d) (\<lambda>existingBookings.
       if int (length existingBookings) \<ge> MAX_BOOKINGS_PER_DAY cfg then
         await (suggestAlternateDate cfg svc d (lat geocodeResult) (lng geocodeResult))
           (\<lambda>alternateDate. ret (day_full (length existingBookings) alternateDate))
       else if length existingBookings = 0 then
         ret (anchor_booking geocodeResult
                (check_distance lowellCheck) (check_travelTime lowellCheck))
       else
         (case find is_anchor existingBookings of
            None \<Rightarrow>
              ret (no_anchor_found geocodeResult
                     (check_distance lowellCheck) (check_travelTime lowellCheck))
          | Some anchorBooking \<Rightarrow>
     await (checkDistanceFromAnchor cfg svc (lat geocodeResult) (lng geocodeResult)
              (latitude anchorBooking) (longitude anchorBooking) (address anchorBooking))
       (\<lambda>anchorCheck.
       if \<not> check_valid anchorCheck then
         await (suggestAlternateDate cfg svc d (lat geocodeResult) (lng geocodeResult))
           (\<lambda>alternateDate. ret (too_far_from_anchor anchorCheck alternateDate))
       else
         (let timeCheck = checkTimeAvailability cfg svc existingBookings
                            (request_booking_time bookingRequest)
          in if \<not> timeCheckValid timeCheck
             then ret (time_conflict (suggestedTimesOf timeCheck))
             else ret (valid_booking geocodeResult
                         (check_distance lowellCheck) (check_travelTime lowellCheck)
                         (check_distance anchorCheck) (check_travelTime anchorCheck))))))))"

text \<open>
  \<open>validateBooking\<close>: the date check, the working-day gate, then the \<open>try\<close> block.
  Past the working-day gate the date is a calendar day, \<open>isWorkingDay\<close> being false on
  anything else, so the last case below is never taken.
\<close>

definition validateBooking ::
    "config_t \<Rightarrow> services \<Rightarrow> booking_request \<Rightarrow> verdict async" where
  "validateBooking cfg svc bookingRequest =
     (case request_booking_date bookingRequest of
        NoDate \<Rightarrow> ret missing_booking_date
      | booking_date \<Rightarrow>
          if \<not> isWorkingDay cfg (parseDate booking_date)
          then nonWorkingDay cfg (parseDate booking_date)
          else
            (case booking_date of
               OnDay d \<Rightarrow>
                 catch (validateOnDay cfg svc bookingRequest d)
                   (\<lambda>error. ret (validation_error
                                  (''Error validating booking: '' @ message error)))
             | _ \<Rightarrow> nonWorkingDay cfg (parseDate booking_date)))"

section \<open>The auto-scheduler\<close>

definition pickTimeSlot :: "config_t \<Rightarrow> booking list \<Rightarrow> string option" where
  "pickTimeSlot cfg existingBookings =
     (let usedTimes = set (map booking_time existingBookings)
      in find (\<lambda>slot. slot \<notin> usedTimes) (DEFAULT_TIME_SLOTS cfg))"

text \<open>
  \<open>normalizeStartDate\<close>: the later of today and the supplied date, shifted to a working
  day; today when the date is absent or does not parse. \<open>today\<close> is the clock's day.
\<close>

definition normalizeStartDate :: "config_t \<Rightarrow> int \<Rightarrow> date_field \<Rightarrow> js_date" where
  "normalizeStartDate cfg today dateString =
     (case dateString of
        NoDate \<Rightarrow> shiftToWorkingDay cfg (Day today) True
      | BadDate \<Rightarrow> shiftToWorkingDay cfg (Day today) True
      | OnDay parsed \<Rightarrow>
          (let baseline = (if parsed < today then today else parsed)
           in shiftToWorkingDay cfg (Day baseline) True))"

text \<open>\<open>a || b\<close> on two date fields.\<close>

fun orElse :: "date_field \<Rightarrow> date_field \<Rightarrow> date_field" where
  "orElse NoDate b = b"
| "orElse a b = a"

text \<open>
  \<open>scheduled booking_date booking_time isAnchor geocode lowellCheck anchorCheck\<close>;
  the distance fields of the returned object are those of the two checks.
\<close>

datatype schedule_result =
    scheduled int string bool location distance_check "distance_check option"
  | unscheduled_outside_service_area distance_check
  | no_slot_available
  | auto_schedule_error string

text \<open>The \<open>for\<close> loop over the offsets \<open>0, ..., maxDays\<close>.\<close>

fun scheduleLoop ::
    "config_t \<Rightarrow> services \<Rightarrow> location \<Rightarrow> distance_check \<Rightarrow> js_date \<Rightarrow> int list
       \<Rightarrow> schedule_result async" where
  "scheduleLoop cfg svc g lowellCheck startDate [] = ret no_slot_available"
| "scheduleLoop cfg svc g lowellCheck startDate (offset # rest) =
     (let candidateDate = addDays startDate offset in
      await (lift (formatDate candidateDate)) (\<lambda>dateString.
        if \<not> isWorkingDay cfg candidateDate
        then scheduleLoop cfg svc g lowellCheck startDate rest
        else
      await (call_getBookingsByDate svc dateString) (\<lambda>bookings.
        if int (length bookings) \<ge> MAX_BOOKINGS_PER_DAY cfg
        then scheduleLoop cfg svc g lowellCheck startDate rest
        else
      await
        (case bookings of
           [] \<Rightarrow> ret None
         | first # others \<Rightarrow>
             (let anchorBooking = (case find is_anchor bookings of
                                     Some b \<Rightarrow> b
                                   | None \<Rightarrow> first)
              in await (checkDistanceFromAnchor cfg svc (lat g) (lng g)
                          (latitude anchorBooking) (longitude anchorBooking)
                          (address anchorBooking))
                   (\<lambda>anchorCheck. ret (Some anchorCheck))))
        (\<lambda>anchorCheck.
           if (case anchorCheck of Some c \<Rightarrow> \<not> check_valid c | None \<Rightarrow> False)
           then scheduleLoop cfg svc g lowellCheck startDate rest
           else
             (case pickTimeSlot cfg bookings of
                None \<Rightarrow> scheduleLoop cfg svc g lowellCheck startDate rest
              | Some suggestedTime \<Rightarrow>
                  if suggestedTime = []
                  then scheduleLoop cfg svc g lowellCheck startDate rest
                  else ret (scheduled dateString suggestedTime (length bookings = 0)
                              g lowellCheck anchorCheck))))))"

definition autoScheduleBooking ::
    "config_t \<Rightarrow> services \<Rightarrow> int \<Rightarrow> booking_request \<Rightarrow> schedule_result async" where
  "autoScheduleBooking cfg svc today bookingRequest =
     catch
       (await (call_geocodeAddress svc (request_address bookingRequest)) (\<lambda>geocodeResult.
        await (checkDistanceFromLowell cfg svc (lat geocodeResult) (lng geocodeResult))
          (\<lambda>lowellCheck.
            if \<not> check_valid lowellCheck
            then ret (unscheduled_outside_service_area lowellCheck)
            else
              (let startDate = normalizeStartDate cfg today
                                 (orElse (preferred_start_date bookingRequest)
                                         (request_booking_date bookingRequest));
                   maxDays = MAX_DAYS_TO_SUGGEST cfg
               in scheduleLoop cfg svc geocodeResult lowellCheck startDate [0..maxDays]))))
       (\<lambda>error. ret (auto_schedule_error
                       (''Error auto-scheduling booking: '' @ message error)))"

text \<open>The days whose bookings were read from the store, in the order of the reads.\<close>

fun datesRead :: "call list \<Rightarrow> int list" where
  "datesRead [] = []"
| "datesRead (getBookingsByDate_call d # calls) = d # datesRead calls"
| "datesRead (c # calls) = datesRead calls"

subsection \<open>A day of the scan, as the specification words it\<close>

text \<open>
  The booking a day is measured against: ``that day's anchor (or first booking if no
  explicit anchor)''; none on an empty day.
\<close>

definition referenceBooking :: "booking list \<Rightarrow> booking option" where
  "referenceBooking bookings =
     (case find is_anchor bookings of
        Some b \<Rightarrow> Some b
      | None \<Rightarrow> (case bookings of [] \<Rightarrow> None | first # others \<Rightarrow> Some first))"

text \<open>
  ``Anchor fit'': the day is empty, or the distance service puts the address within
  both \<open>MAX_DISTANCE_FROM_ANCHOR_MILES\<close> and \<open>MAX_TRAVEL_TIME_FROM_ANCHOR_MINUTES\<close> of
  that booking.
\<close>

definition anchorFit :: "config_t \<Rightarrow> services \<Rightarrow> location \<Rightarrow> booking list \<Rightarrow> bool" where
  "anchorFit cfg svc g bookings =
     (case referenceBooking bookings of
        None \<Rightarrow> True
      | Some a \<Rightarrow>
          (case getDistanceAndTime svc (latitude a, longitude a) (lat g, lng g) of
             Inl e \<Rightarrow> False
           | Inr r \<Rightarrow> distance r \<le> MAX_DISTANCE_FROM_ANCHOR_MILES cfg \<and>
                      duration r \<le> MAX_TRAVEL_TIME_FROM_ANCHOR_MINUTES cfg))"

text \<open>
  ``A free preferred slot'': the first slot of \<open>DEFAULT_TIME_SLOTS\<close> not occupied that
  day exists, and is not the empty text (which JavaScript takes for false).
\<close>

definition freePreferredSlot :: "config_t \<Rightarrow> booking list \<Rightarrow> bool" where
  "freePreferredSlot cfg bookings =
     (case pickTimeSlot cfg bookings of None \<Rightarrow> False | Some slot \<Rightarrow> slot \<noteq> [])"

text \<open>
  A day ``yields both an anchor fit and a free preferred slot'': it is a working day,
  the store answers with fewer than \<open>MAX_BOOKINGS_PER_DAY\<close> bookings, and both hold.
\<close>

definition dayFits :: "config_t \<Rightarrow> services \<Rightarrow> location \<Rightarrow> int \<Rightarrow> bool" where
  "dayFits cfg svc g ds =
     (isWorkingDay cfg (Day ds) \<and>
      (case getBookingsByDate svc ds of
         Inl e \<Rightarrow> False
       | Inr bookings \<Rightarrow>
           int (length bookings) < MAX_BOOKINGS_PER_DAY cfg \<and>
           anchorFit cfg svc g bookings \<and> freePreferredSlot cfg bookings))"

section \<open>The maps service (services/mapsService.js)\<close>

text \<open>
  JavaScript numbers are IEEE 754 double-precision values. A finite double is taken as
  the real number it denotes, and the operations of the machine are a parameter of the
  model, the record \<open>arithmetic\<close>: \<open>fl_mul\<close>, \<open>fl_div\<close>, \<open>fl_add\<close> and \<open>fl_sub\<close> are
  \<open>*\<close>, \<open>/\<close>, \<open>+\<close> and \<open>-\<close> on doubles, the others are the functions and the constant
  of \<open>Math\<close>. \<open>Math.round\<close> and \<open>Math.ceil\<close> are exact on doubles: \<open>Math.round x\<close> is
  \<open>\<lfloor>x + 1/2\<rfloor>\<close> and \<open>Math.ceil x\<close> is the ceiling. \<open>NaN\<close>, the infinities and the sign of
  zero are not modelled.
\<close>

record arithmetic =
  fl_mul :: "real \<Rightarrow> real \<Rightarrow> real"
  fl_div :: "real \<Rightarrow> real \<Rightarrow> real"
  fl_add :: "real \<Rightarrow> real \<Rightarrow> real"
  fl_sub :: "real \<Rightarrow> real \<Rightarrow> real"
  Math_sin :: "real \<Rightarrow> real"
  Math_cos :: "real \<Rightarrow> real"
  Math_sqrt :: "real \<Rightarrow> real"
  Math_atan2 :: "real \<Rightarrow> real \<Rightarrow> real"
  Math_PI :: real

definition averageSpeedMph :: real where
  "averageSpeedMph = 35"

definition toRad :: "arithmetic \<Rightarrow> real \<Rightarrow> real" where
  "toRad fp degrees = fl_mul fp degrees (fl_div fp (Math_PI fp) 180)"

definition Math_round :: "real \<Rightarrow> int" where
  "Math_round x = \<lfloor>x + 1 / 2\<rfloor>"

definition Math_ceil :: "real \<Rightarrow> int" where
  "Math_ceil x = \<lceil>x\<rceil>"

definition calculateStraightLineDistance ::
    "arithmetic \<Rightarrow> real \<Rightarrow> real \<Rightarrow> real \<Rightarrow> real \<Rightarrow> real" where
  "calculateStraightLineDistance fp lat1 lon1 lat2 lon2 =
     (let R = 3959;
          dLat = toRad fp (fl_sub fp lat2 lat1);
          dLon = toRad fp (fl_sub fp lon2 lon1);
          a = fl_add fp
                (fl_mul fp (Math_sin fp (fl_div fp dLat 2)) (Math_sin fp (fl_div fp dLat 2)))
                (fl_mul fp
                   (fl_mul fp
                      (fl_mul fp (Math_cos fp (toRad fp lat1)) (Math_cos fp (toRad fp lat2)))
                      (Math_sin fp (fl_div fp dLon 2)))
                   (Math_sin fp (fl_div fp dLon 2)));
          c = fl_mul fp 2 (Math_atan2 fp (Math_sqrt fp a) (Math_sqrt fp (fl_sub fp 1 a)));
          distance = fl_mul fp R c
      in fl_div fp (of_int (Math_round (fl_mul fp distance 10))) 10)"

text \<open>
  \<open>getDistanceAndTime\<close>: both arguments are geocoded, the straight-line distance
  (already rounded to one decimal by \<open>calculateStraightLineDistance\<close>) is multiplied by
  1.25, and the travel time is derived from the average speed. The geocoder is a
  parameter.
\<close>

definition MapsService_getDistanceAndTime ::
    "arithmetic \<Rightarrow> ('q \<Rightarrow> exn + location) \<Rightarrow> 'q \<Rightarrow> 'q \<Rightarrow> exn + distance_result" where
  "MapsService_getDistanceAndTime fp geocode origin destination =
     (case geocode origin of
        Inl error \<Rightarrow> Inl error
      | Inr originCoords \<Rightarrow>
          (case geocode destination of
             Inl error \<Rightarrow> Inl error
           | Inr destCoords \<Rightarrow>
               (let distance' = calculateStraightLineDistance fp
                                  (lat originCoords) (lng originCoords)
                                  (lat destCoords) (lng destCoords);
                    drivingDistance = fl_mul fp distance' (125 / 100);
                    durationInMinutes =
                      Math_ceil (fl_mul fp (fl_div fp drivingDistance averageSpeedMph) 60)
                in Inr \<lparr> distance = fl_div fp
                                       (of_int (Math_round (fl_mul fp drivingDistance 10))) 10,
                          duration = durationInMinutes \<rparr>)))"

subsection \<open>The separation before it is rounded\<close>

text \<open>
  The value of the local variable \<open>distance\<close> of \<open>calculateStraightLineDistance\<close>: the
  haversine formula as the machine evaluates it, before the rounding of the \<open>return\<close>
  statement (\<open>calculateStraightLineDistance_greatCircleMiles\<close>).
\<close>

definition greatCircleMiles :: "arithmetic \<Rightarrow> real \<Rightarrow> real \<Rightarrow> real \<Rightarrow> real \<Rightarrow> real" where
  "greatCircleMiles fp lat1 lon1 lat2 lon2 =
     (let R = 3959;
          dLat = toRad fp (fl_sub fp lat2 lat1);
          dLon = toRad fp (fl_sub fp lon2 lon1);
          a = fl_add fp
                (fl_mul fp (Math_sin fp (fl_div fp dLat 2)) (Math_sin fp (fl_div fp dLat 2)))
                (fl_mul fp
                   (fl_mul fp
                      (fl_mul fp (Math_cos fp (toRad fp lat1)) (Math_cos fp (toRad fp lat2)))
                      (Math_sin fp (fl_div fp dLon 2)))
                   (Math_sin fp (fl_div fp dLon 2)));
          c = fl_mul fp 2 (Math_atan2 fp (Math_sqrt fp a) (Math_sqrt fp (fl_sub fp 1 a)))
      in fl_mul fp R c)"

subsection \<open>Accuracy of the arithmetic\<close>

text \<open>
  What is assumed of the machine arithmetic where a statement depends on it: an
  operation returns zero when its exact result is zero, and otherwise, as long as the
  exact result is below \<open>10^300\<close> in magnitude (no overflow), it returns the exact result
  up to a relative error \<open>u\<close> and an absolute error of \<open>10^-300\<close> (underflow).
  In double-precision arithmetic the four operations and the square root return the
  double nearest to the exact result, a relative error of at most \<open>2^-53\<close>; the
  functions of \<open>Math\<close> are accurate to a few units in the last place. (The condition
  is stated for all real arguments; an operation on doubles meets it when it is
  continued to the other reals by rounding the exact result.) Exact arithmetic meets
  the condition with \<open>u = 0\<close>. \<open>atan2\<close> is the two-argument arctangent.
\<close>

definition near :: "real \<Rightarrow> real \<Rightarrow> real \<Rightarrow> bool" where
  "near u exact result \<longleftrightarrow>
     (exact = 0 \<longrightarrow> result = 0) \<and>
     (\<bar>exact\<bar> \<le> 10 ^ 300 \<longrightarrow> \<bar>result - exact\<bar> \<le> u * \<bar>exact\<bar> + 1 / 10 ^ 300)"

definition atan2 :: "real \<Rightarrow> real \<Rightarrow> real" where
  "atan2 y x =
     (if 0 < x then arctan (y / x)
      else if x < 0 then (if 0 \<le> y then arctan (y / x) + pi else arctan (y / x) - pi)
      else if 0 < y then pi / 2
      else if y < 0 then - (pi / 2)
      else 0)"

definition accurate :: "real \<Rightarrow> arithmetic \<Rightarrow> bool" where
  "accurate u fp \<longleftrightarrow>
     (\<forall>x y. near u (x * y) (fl_mul fp x y)) \<and>
     (\<forall>x y. y \<noteq> 0 \<longrightarrow> near u (x / y) (fl_div fp x y)) \<and>
     (\<forall>x y. near u (x + y) (fl_add fp x y)) \<and>
     (\<forall>x y. near u (x - y) (fl_sub fp x y)) \<and>
     (\<forall>x. near u (sin x) (Math_sin fp x)) \<and>
     (\<forall>x. near u (cos x) (Math_cos fp x)) \<and>
     (\<forall>x. 0 \<le> x \<longrightarrow> near u (sqrt x) (Math_sqrt fp x)) \<and>
     (\<forall>y x. 0 \<le> y \<longrightarrow> 0 \<le> x \<longrightarrow> near u (atan2 y x) (Math_atan2 fp y x)) \<and>
     near u pi (Math_PI fp)"

definition exactArithmetic :: arithmetic where
  "exactArithmetic =
     \<lparr> fl_mul = (*), fl_div = (/), fl_add = (+), fl_sub = (-),
       Math_sin = sin, Math_cos = cos, Math_sqrt = sqrt, Math_atan2 = atan2,
       Math_PI = pi \<rparr>"

subsection \<open>The distance and duration as the specification words them\<close>

text \<open>
  The great-circle separation in miles by the haversine formula, over the real numbers
  and not rounded; the reported distance as ``that separation, multiplied by 1.25,
  rounded to one decimal place''; the reported duration as ``that distance divided by
  35 mph, converted to minutes, rounded up''.
\<close>

definition radians :: "real \<Rightarrow> real" where
  "radians degrees = degrees * (pi / 180)"

definition haversineMiles :: "real \<Rightarrow> real \<Rightarrow> real \<Rightarrow> real \<Rightarrow> real" where
  "haversineMiles lat1 lon1 lat2 lon2 =
     (let a = (sin (radians (lat2 - lat1) / 2))\<^sup>2 +
              cos (radians lat1) * cos (radians lat2) * (sin (radians (lon2 - lon1) / 2))\<^sup>2
      in 3959 * (2 * atan2 (sqrt a) (sqrt (1 - a))))"

definition roundToTenth :: "real \<Rightarrow> real" where
  "roundToTenth x = of_int \<lfloor>x * 10 + 1 / 2\<rfloor> / 10"

definition spec_distance :: "real \<Rightarrow> real \<Rightarrow> real \<Rightarrow> real \<Rightarrow> real" where
  "spec_distance lat1 lon1 lat2 lon2 =
     roundToTenth (haversineMiles lat1 lon1 lat2 lon2 * (125 / 100))"

definition spec_duration :: "real \<Rightarrow> real \<Rightarrow> real \<Rightarrow> real \<Rightarrow> int" where
  "spec_duration lat1 lon1 lat2 lon2 =
     \<lceil>spec_distance lat1 lon1 lat2 lon2 / 35 * 60\<rceil>"

text \<open>
  A geocoder for the coordinate texts \<open>`${lat},${lng}`\<close> that \<open>getDistanceAndTime\<close> is
  called with: it answers with the coordinates themselves.
\<close>

definition coordinateGeocode :: "real \<times> real \<Rightarrow> exn + location" where
  "coordinateGeocode q = Inr \<lparr> lat = fst q, lng = snd q, formatted_address = [] \<rparr>"

section \<open>Example collaborators\<close>

text \<open>
  A small world on which the statements below are exercised: a geocoder that knows two
  addresses, a distance table and a few booking stores. Day 20444 is Monday 2025-12-22.
\<close>

definition nashua :: location where
  "nashua = \<lparr> lat = 427654 / 10000, lng = - (714676 / 10000),
              formatted_address = ''12 Elm Street, Nashua, NH 03060, USA'' \<rparr>"

definition albany :: location where
  "albany = \<lparr> lat = 426526 / 10000, lng = - (737562 / 10000),
              formatted_address = ''1 State Street, Albany, NY 12207, USA'' \<rparr>"

definition exampleGeocode :: "string \<Rightarrow> exn + location" where
  "exampleGeocode a =
     (if a = ''12 Elm St, Nashua NH'' then Inr nashua
      else if a = ''1 State St, Albany NY'' then Inr albany
      else Inl (Error ''Unable to find address''))"

text \<open>
  Albany is 105.7 miles from anywhere in the table, Nashua 15 miles and 26 minutes from
  the base; an anchor in Hudson (latitude 42.7648) is 3.5 miles and 8 minutes from
  Nashua, one in Worcester 25.3 miles and 44 minutes.
\<close>

definition exampleDistance :: "real \<times> real \<Rightarrow> real \<times> real \<Rightarrow> exn + distance_result" where
  "exampleDistance origin destination =
     (if destination = (lat albany, lng albany)
      then Inr \<lparr> distance = 1057 / 10, duration = 182 \<rparr>
      else if origin = BASE_LOCATION config
      then Inr \<lparr> distance = 15, duration = 26 \<rparr>
      else if fst origin = 427648 / 10000
      then Inr \<lparr> distance = 35 / 10, duration = 8 \<rparr>
      else Inr \<lparr> distance = 253 / 10, duration = 44 \<rparr>)"

text \<open>
  \<open>Number\<close> on the fields of a well-formed time text: a run of decimal digits is its
  decimal value, the empty text 0. Other texts are not used in the examples.
\<close>

definition isDigit :: "char \<Rightarrow> bool" where
  "isDigit c = (48 \<le> (of_char c :: nat) \<and> (of_char c :: nat) \<le> 57)"

definition decimalNumber :: "string \<Rightarrow> real option" where
  "decimalNumber s =
     (if list_all isDigit s
      then Some (real_of_int (foldl (\<lambda>n c. 10 * n + (int (of_char c) - 48)) 0 s))
      else None)"

definition exampleServices :: "(int \<Rightarrow> booking list) \<Rightarrow> services" where
  "exampleServices store =
     \<lparr> geocodeAddress = exampleGeocode,
       getDistanceAndTime = exampleDistance,
       getBookingsByDate = (\<lambda>d. Inr (store d)),
       Number = decimalNumber \<rparr>"

definition hudsonBooking :: "string \<Rightarrow> bool \<Rightarrow> booking" where
  "hudsonBooking t anchor =
     \<lparr> customer_name = ''Ada'', address = ''5 Derry Rd, Hudson NH'',
       latitude = 427648 / 10000, longitude = - (714398 / 10000),
       booking_time = t, is_anchor = anchor \<rparr>"

definition worcesterBooking :: "string \<Rightarrow> bool \<Rightarrow> booking" where
  "worcesterBooking t anchor =
     \<lparr> customer_name = ''Bob'', address = ''9 Main St, Worcester MA'',
       latitude = 422626 / 10000, longitude = - (718023 / 10000),
       booking_time = t, is_anchor = anchor \<rparr>"

definition fullDay :: "booking list" where
  "fullDay = [hudsonBooking ''08:00'' True, hudsonBooking ''11:30'' False,
              hudsonBooking ''15:00'' False]"

definition emptyStore :: "int \<Rightarrow> booking list" where
  "emptyStore d = []"

definition hudsonStore :: "int \<Rightarrow> booking list" where
  "hudsonStore d = (if d = 20444 then [hudsonBooking ''11:30'' True] else [])"

definition worcesterStore :: "int \<Rightarrow> booking list" where
  "worcesterStore d = (if d = 20444 then [worcesterBooking ''11:30'' True] else [])"

definition fullStore :: "int \<Rightarrow> booking list" where
  "fullStore d = fullDay"

definition busyFortnightStore :: "int \<Rightarrow> booking list" where
  "busyFortnightStore d = (if d < 20458 then fullDay else [])"

definition nashuaRequest :: "date_field \<Rightarrow> string option \<Rightarrow> booking_request" where
  "nashuaRequest date time =
     \<lparr> request_address = ''12 Elm St, Nashua NH'', request_booking_date = date,
       request_booking_time = time, preferred_start_date = NoDate \<rparr>"

definition albanyRequest :: "date_field \<Rightarrow> booking_request" where
  "albanyRequest date =
     \<lparr> request_address = ''1 State St, Albany NY'', request_booking_date = date,
       request_booking_time = None, preferred_start_date = NoDate \<rparr>"

section \<open>Basic facts\<close>

lemma await_Inr [simp]: "await (Inr x, t) f = (fst (f x), t @ snd (f x))"
  by (simp add: await_def)

lemma await_Inl [simp]: "await (Inl e, t) f = (Inl e, t)"
  by (simp add: await_def)

lemma catch_Inr [simp]: "catch (Inr x, t) h = (Inr x, t)"
  by (simp add: catch_def)

lemma catch_Inl [simp]: "catch (Inl e, t) h = (fst (h e), t @ snd (h e))"
  by (simp add: catch_def)

lemma isWorkingDay_InvalidDate [simp]: "\<not> isWorkingDay cfg InvalidDate"
  by (simp add: isWorkingDay_def)

lemma await_returns:
  "fst (await m f) = Inr v \<longleftrightarrow> (\<exists>x. fst m = Inr x \<and> fst (f x) = Inr v)"
  by (cases "fst m") (simp_all add: await_def)

lemma ret_returns [simp]: "fst (ret x) = Inr v \<longleftrightarrow> x = v"
  by (simp add: ret_def)

lemma isWorkingDay_all_week:
  assumes "WORKING_DAYS cfg = [0, 1, 2, 3, 4, 5, 6]"
  shows "isWorkingDay cfg (Day n)"
proof -
  have "0 \<le> (n + 4) mod 7" and "(n + 4) mod 7 < 7" by simp_all
  then have "(n + 4) mod 7 \<in> {0, 1, 2, 3, 4, 5, 6}" by auto
  with assms show ?thesis by (simp add: isWorkingDay_def)
qed

lemma isWorkingDay_config: "isWorkingDay config (Day n)"
  by (rule isWorkingDay_all_week) (simp add: config_def)

lemma nonWorkingDay_InvalidDate:
  "nonWorkingDay cfg InvalidDate = (Inl (RangeError ''Invalid time value''), [])"
proof -
  have "shiftLoop cfg InvalidDate n = InvalidDate" for n
    by (induction cfg InvalidDate n rule: shiftLoop.induct)
       (subst shiftLoop.simps, simp)
  then show ?thesis
    by (simp add: nonWorkingDay_def shiftToWorkingDay_def lift_def)
qed

lemma suggestAlternateDate_returns:
  "\<exists>a. fst (suggestAlternateDate cfg svc d la lo) = Inr a"
  unfolding suggestAlternateDate_def catch_def
  by (simp add: ret_def split: sum.splits)

lemma validateOnDay_reason:
  assumes "fst (validateOnDay cfg svc bookingRequest d) = Inr v"
  shows "reason v \<in> {''outside_service_area'', ''day_full'', ''anchor_booking'',
           ''no_anchor_found'', ''too_far_from_anchor'', ''time_conflict'', ''valid_booking''}"
  using assms unfolding validateOnDay_def
  by (auto simp: await_returns Let_def split: if_splits option.splits)

section \<open>Early gates of the validator\<close>

text \<open>
  C9. A request whose \<open>booking_date\<close> is absent is answered with the invalid verdict
  \<open>missing_booking_date\<close>, and the trace of collaborator calls is empty: neither the
  geocoder, the distance service nor the store has been contacted.
\<close>

theorem validateBooking_missing_booking_date:
  assumes "request_booking_date bookingRequest = NoDate"
  shows "validateBooking cfg svc bookingRequest = (Inr missing_booking_date, []) \<and>
         \<not> valid missing_booking_date \<and>
         reason missing_booking_date = ''missing_booking_date''"
  using assms by (simp add: validateBooking_def ret_def)

theorem validateBooking_missing_booking_date_witness:
  "request_booking_date (nashuaRequest NoDate (Some ''09:00'')) = NoDate \<and>
   validateBooking config (exampleServices hudsonStore) (nashuaRequest NoDate (Some ''09:00''))
     = (Inr missing_booking_date, [])"
  using validateBooking_missing_booking_date
          [of "nashuaRequest NoDate (Some ''09:00'')" config "exampleServices hudsonStore"]
  by (simp add: nashuaRequest_def)

text \<open>
  C10 (as amended). Under the shipped configuration \<open>isWorkingDay\<close> is true of every
  calendar day, a request whose \<open>booking_date\<close> is a calendar day goes past the
  working-day branch into the gates of the \<open>try\<close> block, and \<open>validateBooking\<close> never
  returns the \<open>non_working_day\<close> rejection, whatever the request and whatever the
  collaborators answer.
\<close>

theorem working_day_gate_never_rejects:
  "isWorkingDay config (Day n) \<and>
   (request_booking_date bookingRequest = OnDay d \<longrightarrow>
      validateBooking config svc bookingRequest
        = catch (validateOnDay config svc bookingRequest d)
            (\<lambda>error. ret (validation_error (''Error validating booking: '' @ message error)))) \<and>
   fst (validateBooking config svc bookingRequest) \<noteq> Inr (non_working_day next)"
proof (intro conjI)
  show "isWorkingDay config (Day n)" by (rule isWorkingDay_config)
  show "request_booking_date bookingRequest = OnDay d \<longrightarrow>
      validateBooking config svc bookingRequest
        = catch (validateOnDay config svc bookingRequest d)
            (\<lambda>error. ret (validation_error (''Error validating booking: '' @ message error)))"
    by (simp add: validateBooking_def isWorkingDay_config)
  show "fst (validateBooking config svc bookingRequest) \<noteq> Inr (non_working_day next)"
  proof (cases "request_booking_date bookingRequest")
    case NoDate
    then show ?thesis by (simp add: validateBooking_def ret_def)
  next
    case BadDate
    then show ?thesis by (simp add: validateBooking_def nonWorkingDay_InvalidDate)
  next
    case (OnDay d)
    show ?thesis
    proof
      assume a: "fst (validateBooking config svc bookingRequest) = Inr (non_working_day next)"
      show False
      proof (cases "fst (validateOnDay config svc bookingRequest d)")
        case (Inl e)
        with a OnDay show False
          by (simp add: validateBooking_def isWorkingDay_config catch_def ret_def)
      next
        case (Inr v)
        with a OnDay have "v = non_working_day next"
          by (simp add: validateBooking_def isWorkingDay_config catch_def)
        with validateOnDay_reason [OF Inr] show False by simp
      qed
    qed
  qed
qed

theorem working_day_gate_never_rejects_witness:
  "request_booking_date (nashuaRequest (OnDay 20447) None) = OnDay 20447 \<and>
   isWorkingDay config (Day 20447) \<and>
   validateBooking config (exampleServices emptyStore) (nashuaRequest (OnDay 20447) None)
     = catch (validateOnDay config (exampleServices emptyStore)
                (nashuaRequest (OnDay 20447) None) 20447)
         (\<lambda>error. ret (validation_error (''Error validating booking: '' @ message error))) \<and>
   fst (validateBooking config (exampleServices emptyStore)
          (nashuaRequest (OnDay 20447) None)) \<noteq> Inr (non_working_day 20448)"
proof -
  have d: "request_booking_date (nashuaRequest (OnDay 20447) None) = OnDay 20447"
    by (simp add: nashuaRequest_def)
  from working_day_gate_never_rejects
         [of 20447 "nashuaRequest (OnDay 20447) None" 20447 "exampleServices emptyStore" 20448]
  show ?thesis using d by blast
qed

text \<open>
  C10, the claim as worded, fails: \<open>isWorkingDay\<close> is not true of every input. The
  route handler passes on any non-empty \<open>booking_date\<close>; for a text that is not a date
  \<open>isWorkingDay\<close> is false, so the branch is entered, and it ends in the \<open>RangeError\<close>
  that \<open>formatDate\<close> raises on the invalid date, before any collaborator is called.
\<close>

theorem unparseable_date_enters_non_working_branch:
  "\<not> isWorkingDay config (parseDate BadDate) \<and>
   validateBooking config (exampleServices emptyStore) (nashuaRequest BadDate None)
     = nonWorkingDay config (parseDate BadDate) \<and>
   validateBooking config (exampleServices emptyStore) (nashuaRequest BadDate None)
     = (Inl (RangeError ''Invalid time value''), [])"
  by (simp add: validateBooking_def nashuaRequest_def nonWorkingDay_InvalidDate)

text \<open>
  C4. When the distance reported from the base exceeds \<open>MAX_SERVICE_RADIUS_MILES\<close>, the
  request is rejected with \<open>outside_service_area\<close>, on whatever working day it asks for
  (every day, under the shipped configuration). The verdict has no \<open>alternateDate\<close>
  field, and the calls made are exactly the geocoding of the address and the distance
  query from the base: the store is never read, so the alternate-date finder, which
  only works by reading the store, has not run.
\<close>

theorem validateBooking_outside_service_area:
  assumes "request_booking_date bookingRequest = OnDay d"
    and "isWorkingDay cfg (Day d)"
    and "geocodeAddress svc (request_address bookingRequest) = Inr g"
    and "getDistanceAndTime svc (BASE_LOCATION cfg) (lat g, lng g) = Inr fromBase"
    and "MAX_SERVICE_RADIUS_MILES cfg < distance fromBase"
  shows "validateBooking cfg svc bookingRequest =
           (Inr (outside_service_area
                   \<lparr> check_valid = False, check_distance = distance fromBase,
                     check_travelTime = duration fromBase, check_anchorAddress = None \<rparr>),
            [geocodeAddress_call (request_address bookingRequest),
             getDistanceAndTime_call (BASE_LOCATION cfg) (lat g, lng g)]) \<and>
         (\<forall>details. reason (outside_service_area details) = ''outside_service_area'' \<and>
                    \<not> valid (outside_service_area details) \<and>
                    alternateDate (outside_service_area details) = None)"
  using assms
  by (simp add: validateBooking_def validateOnDay_def call_geocodeAddress_def
      checkDistanceFromLowell_def call_getDistanceAndTime_def ret_def)

theorem validateBooking_outside_service_area_witness:
  "isWorkingDay config (Day 20444) \<and>
   MAX_SERVICE_RADIUS_MILES config < 1057 / 10 \<and>
   validateBooking config (exampleServices hudsonStore) (albanyRequest (OnDay 20444)) =
     (Inr (outside_service_area
             \<lparr> check_valid = False, check_distance = 1057 / 10,
               check_travelTime = 182, check_anchorAddress = None \<rparr>),
      [geocodeAddress_call ''1 State St, Albany NY'',
       getDistanceAndTime_call (BASE_LOCATION config) (lat albany, lng albany)])"
proof -
  have wd: "isWorkingDay config (Day 20444)"
    by (simp add: isWorkingDay_def config_def)
  have far: "MAX_SERVICE_RADIUS_MILES config
               < distance \<lparr> distance = 1057 / 10, duration = 182 \<rparr>"
    by (simp add: config_def)
  from validateBooking_outside_service_area
         [of "albanyRequest (OnDay 20444)" 20444 config "exampleServices hudsonStore" albany
             "\<lparr> distance = 1057 / 10, duration = 182 \<rparr>", OF _ wd _ _ far]
  show ?thesis using wd
    by (simp add: albanyRequest_def exampleServices_def exampleGeocode_def
        exampleDistance_def config_def)
qed

text \<open>
  C3. On a working day, for an address that geocodes within the service radius, an empty
  day makes the request the anchor: the verdict is valid with \<open>isAnchor = true\<close>. The
  calls made are the geocoding, the distance from the base and one read of the store,
  and nothing else: no distance from an anchor is asked for. (An empty day is below
  capacity as soon as \<open>MAX_BOOKINGS_PER_DAY\<close> is positive; it is 3 as shipped.)
\<close>

theorem validateBooking_first_of_day_is_anchor:
  assumes "request_booking_date bookingRequest = OnDay d"
    and "isWorkingDay cfg (Day d)"
    and "geocodeAddress svc (request_address bookingRequest) = Inr g"
    and "getDistanceAndTime svc (BASE_LOCATION cfg) (lat g, lng g) = Inr fromBase"
    and "distance fromBase \<le> MAX_SERVICE_RADIUS_MILES cfg"
    and "getBookingsByDate svc d = Inr []"
    and "0 < MAX_BOOKINGS_PER_DAY cfg"
  shows "validateBooking cfg svc bookingRequest =
           (Inr (anchor_booking g (distance fromBase) (duration fromBase)),
            [geocodeAddress_call (request_address bookingRequest),
             getDistanceAndTime_call (BASE_LOCATION cfg) (lat g, lng g),
             getBookingsByDate_call d]) \<and>
         valid (anchor_booking g (distance fromBase) (duration fromBase)) \<and>
         isAnchor (anchor_booking g (distance fromBase) (duration fromBase)) = Some True"
  using assms
  by (simp add: validateBooking_def validateOnDay_def call_geocodeAddress_def
      checkDistanceFromLowell_def call_getDistanceAndTime_def ret_def
      call_getBookingsByDate_def)

theorem validateBooking_first_of_day_is_anchor_witness:
  "isWorkingDay config (Day 20444) \<and>
   (15 :: real) \<le> MAX_SERVICE_RADIUS_MILES config \<and>
   0 < MAX_BOOKINGS_PER_DAY config \<and>
   validateBooking config (exampleServices emptyStore)
       (nashuaRequest (OnDay 20444) (Some ''09:00'')) =
     (Inr (anchor_booking nashua 15 26),
      [geocodeAddress_call ''12 Elm St, Nashua NH'',
       getDistanceAndTime_call (BASE_LOCATION config) (lat nashua, lng nashua),
       getBookingsByDate_call 20444])"
proof -
  have wd: "isWorkingDay config (Day 20444)"
    by (simp add: isWorkingDay_def config_def)
  have near: "distance \<lparr> distance = 15, duration = 26 \<rparr> \<le> MAX_SERVICE_RADIUS_MILES config"
    by (simp add: config_def)
  have cap: "0 < MAX_BOOKINGS_PER_DAY config"
    by (simp add: config_def)
  from validateBooking_first_of_day_is_anchor
         [of "nashuaRequest (OnDay 20444) (Some ''09:00'')" 20444 config
             "exampleServices emptyStore" nashua "\<lparr> distance = 15, duration = 26 \<rparr>",
          OF _ wd _ _ near _ cap]
  show ?thesis using wd cap
    by (simp add: nashuaRequest_def exampleServices_def exampleGeocode_def
        exampleDistance_def emptyStore_def nashua_def albany_def config_def)
qed

section \<open>The example collaborators, evaluated\<close>

lemma fst_await: "fst (await m f) = (case fst m of Inl e \<Rightarrow> Inl e | Inr x \<Rightarrow> fst (f x))"
  by (simp add: await_def split: sum.splits)

lemma fst_catch: "fst (catch m h) = (case fst m of Inl e \<Rightarrow> fst (h e) | Inr x \<Rightarrow> Inr x)"
  by (cases "fst m") (simp_all add: catch_def)

lemma fst_call [simp]:
  "fst (call_getBookingsByDate svc d) = getBookingsByDate svc d"
  "fst (call_geocodeAddress svc a) = geocodeAddress svc a"
  "fst (call_getDistanceAndTime svc p q) = getDistanceAndTime svc p q"
  by (simp_all add: call_getBookingsByDate_def call_geocodeAddress_def call_getDistanceAndTime_def)

lemma fst_ret [simp]: "fst (ret x) = Inr x"
  by (simp add: ret_def)

lemma upto_1_14: "[1..14] = [1, 2, 3, 4, 5, 6, 7, 8, 9, 10, 11, 12, 13, 14 :: int]"
  by (simp add: upto.simps)

lemma upto_0_14: "[0..14] = [0, 1, 2, 3, 4, 5, 6, 7, 8, 9, 10, 11, 12, 13, 14 :: int]"
  by (simp add: upto.simps)

lemma isWorkingDay_20444: "isWorkingDay config (Day 20444)"
  by (simp add: isWorkingDay_def config_def)

lemma find_Some_nonempty: "find P xs = Some x \<Longrightarrow> xs \<noteq> []"
  by (cases xs) simp_all

lemma nashuaRequest_simps [simp]:
  "request_address (nashuaRequest date t) = ''12 Elm St, Nashua NH''"
  "request_booking_date (nashuaRequest date t) = date"
  "request_booking_time (nashuaRequest date t) = t"
  "preferred_start_date (nashuaRequest date t) = NoDate"
  by (simp_all add: nashuaRequest_def)

lemma exampleServices_simps [simp]:
  "geocodeAddress (exampleServices store) ''12 Elm St, Nashua NH'' = Inr nashua"
  "getDistanceAndTime (exampleServices store) (BASE_LOCATION config) (lat nashua, lng nashua)
     = Inr \<lparr> distance = 15, duration = 26 \<rparr>"
  "getBookingsByDate (exampleServices store) d = Inr (store d)"
  by (simp_all add: exampleServices_def exampleGeocode_def exampleDistance_def
      nashua_def albany_def)

lemma nashua_within_radius:
  "distance \<lparr> distance = 15, duration = 26 \<rparr> \<le> MAX_SERVICE_RADIUS_MILES config"
  by (simp add: config_def)

lemma exampleServices_answer:
  "\<forall>dd. \<exists>bs. getBookingsByDate (exampleServices store) dd = Inr bs"
  "\<forall>p q. \<exists>r. getDistanceAndTime (exampleServices store) p q = Inr r"
  by (simp_all add: exampleServices_def exampleDistance_def)

section \<open>Capacity gate and alternate-date finder\<close>

lemma fullStore_no_alternate:
  "fst (suggestAlternateDate config (exampleServices fullStore) 20444 la lo) = Inr None"
  by (simp add: suggestAlternateDate_def fst_catch fst_await Let_def config_def
      exampleServices_def fullStore_def fullDay_def isWorkingDay_def hudsonBooking_def
      upto_1_14 checkDistanceFromAnchor_def exampleDistance_def)

lemma suggestSecondPass_result:
  assumes store: "\<And>dd. \<exists>bs. getBookingsByDate svc dd = Inr bs"
  shows "\<exists>r. fst (suggestSecondPass cfg svc d offsets) = Inr r \<and>
           (r \<noteq> None \<longleftrightarrow>
              (\<exists>i \<in> set offsets. isWorkingDay cfg (Day (d + i)) \<and>
                 (\<exists>bs. getBookingsByDate svc (d + i) = Inr bs \<and>
                    int (length bs) < MAX_BOOKINGS_PER_DAY cfg)))"
proof (induction offsets)
  case Nil
  show ?case by simp
next
  case (Cons i rest)
  obtain bs where bs: "getBookingsByDate svc (d + i) = Inr bs"
    using store by blast
  from Cons obtain r where r: "fst (suggestSecondPass cfg svc d rest) = Inr r"
    and iff: "r \<noteq> None \<longleftrightarrow>
              (\<exists>i \<in> set rest. isWorkingDay cfg (Day (d + i)) \<and>
                 (\<exists>bs. getBookingsByDate svc (d + i) = Inr bs \<and>
                    int (length bs) < MAX_BOOKINGS_PER_DAY cfg))"
    by blast
  show ?case
  proof (cases "isWorkingDay cfg (Day (d + i))")
    case False
    with r iff show ?thesis by (auto simp: Let_def)
  next
    case True
    show ?thesis
    proof (cases "int (length bs) < MAX_BOOKINGS_PER_DAY cfg")
      case True
      with \<open>isWorkingDay cfg (Day (d + i))\<close> bs show ?thesis
        by (auto simp: Let_def fst_await)
    next
      case False
      with \<open>isWorkingDay cfg (Day (d + i))\<close> bs r iff show ?thesis
        by (auto simp: Let_def fst_await)
    qed
  qed
qed

lemma fst_checkDistanceFromAnchor:
  assumes "getDistanceAndTime svc (alat, alng) (la, lo) = Inr r"
  shows "fst (checkDistanceFromAnchor cfg svc la lo alat alng aaddr) =
           Inr \<lparr> check_valid = (distance r \<le> MAX_DISTANCE_FROM_ANCHOR_MILES cfg \<and>
                                duration r \<le> MAX_TRAVEL_TIME_FROM_ANCHOR_MINUTES cfg),
                 check_distance = distance r, check_travelTime = duration r,
                 check_anchorAddress = Some aaddr \<rparr>"
  using assms by (simp add: checkDistanceFromAnchor_def fst_await Let_def)

lemma suggestFirstPass_result:
  assumes store: "\<And>dd. \<exists>bs. getBookingsByDate svc dd = Inr bs"
    and answers: "\<And>p q. \<exists>r. getDistanceAndTime svc p q = Inr r"
  shows "\<exists>r. fst (suggestFirstPass cfg svc d la lo offsets) = Inr r \<and>
           (r \<noteq> None \<longrightarrow>
              (\<exists>i \<in> set offsets. isWorkingDay cfg (Day (d + i)) \<and>
                 (\<exists>bs. getBookingsByDate svc (d + i) = Inr bs \<and>
                    (bs = [] \<or> int (length bs) < MAX_BOOKINGS_PER_DAY cfg)))) \<and>
           (r = None \<longrightarrow>
              (\<forall>i \<in> set offsets. isWorkingDay cfg (Day (d + i)) \<longrightarrow>
                 getBookingsByDate svc (d + i) \<noteq> Inr []))"
proof (induction offsets)
  case Nil
  show ?case by simp
next
  case (Cons i rest)
  obtain bs where bs: "getBookingsByDate svc (d + i) = Inr bs"
    using store by blast
  from Cons obtain r where r: "fst (suggestFirstPass cfg svc d la lo rest) = Inr r"
    and some: "r \<noteq> None \<longrightarrow>
              (\<exists>i \<in> set rest. isWorkingDay cfg (Day (d + i)) \<and>
                 (\<exists>bs. getBookingsByDate svc (d + i) = Inr bs \<and>
                    (bs = [] \<or> int (length bs) < MAX_BOOKINGS_PER_DAY cfg)))"
    and none: "r = None \<longrightarrow>
              (\<forall>i \<in> set rest. isWorkingDay cfg (Day (d + i)) \<longrightarrow>
                 getBookingsByDate svc (d + i) \<noteq> Inr [])"
    by blast
  show ?case
  proof (cases "isWorkingDay cfg (Day (d + i))")
    case False
    with r some none show ?thesis by (auto simp: Let_def)
  next
    case wd: True
    show ?thesis
    proof (cases "bs = []")
      case True
      with wd bs show ?thesis by (auto simp: Let_def fst_await)
    next
      case ne: False
      show ?thesis
      proof (cases "int (length bs) < MAX_BOOKINGS_PER_DAY cfg")
        case False
        with wd bs ne r some none show ?thesis by (auto simp: Let_def fst_await)
      next
        case room: True
        show ?thesis
        proof (cases "find is_anchor bs")
          case None
          with wd bs ne room r some none show ?thesis by (auto simp: Let_def fst_await)
        next
          case (Some a)
          obtain dr where dr: "getDistanceAndTime svc (latitude a, longitude a) (la, lo) = Inr dr"
            using answers by blast
          note chk = fst_checkDistanceFromAnchor [OF dr, of cfg "address a"]
          show ?thesis
            using wd bs ne room r some none Some chk
            by (auto simp: Let_def fst_await)
        qed
      qed
    qed
  qed
qed


lemma suggestAlternateDate_result:
  assumes store: "\<And>dd. \<exists>bs. getBookingsByDate svc dd = Inr bs"
    and answers: "\<And>p q. \<exists>r. getDistanceAndTime svc p q = Inr r"
  shows "\<exists>a. fst (suggestAlternateDate cfg svc d la lo) = Inr a \<and>
           (a \<noteq> None \<longleftrightarrow>
              (\<exists>i \<in> {1 .. MAX_DAYS_TO_SUGGEST cfg}. isWorkingDay cfg (Day (d + i)) \<and>
                 (\<exists>bs. getBookingsByDate svc (d + i) = Inr bs \<and>
                    (bs = [] \<or> int (length bs) < MAX_BOOKINGS_PER_DAY cfg))))"
proof -
  let ?offsets = "[1 .. MAX_DAYS_TO_SUGGEST cfg]"
  from suggestFirstPass_result [OF store answers, of cfg d la lo ?offsets]
  obtain r where r: "fst (suggestFirstPass cfg svc d la lo ?offsets) = Inr r"
    and some: "r \<noteq> None \<longrightarrow>
              (\<exists>i \<in> set ?offsets. isWorkingDay cfg (Day (d + i)) \<and>
                 (\<exists>bs. getBookingsByDate svc (d + i) = Inr bs \<and>
                    (bs = [] \<or> int (length bs) < MAX_BOOKINGS_PER_DAY cfg)))"
    and none: "r = None \<longrightarrow>
              (\<forall>i \<in> set ?offsets. isWorkingDay cfg (Day (d + i)) \<longrightarrow>
                 getBookingsByDate svc (d + i) \<noteq> Inr [])"
    by blast
  from suggestSecondPass_result [OF store, of cfg d ?offsets]
  obtain r' where r': "fst (suggestSecondPass cfg svc d ?offsets) = Inr r'"
    and iff: "r' \<noteq> None \<longleftrightarrow>
              (\<exists>i \<in> set ?offsets. isWorkingDay cfg (Day (d + i)) \<and>
                 (\<exists>bs. getBookingsByDate svc (d + i) = Inr bs \<and>
                    int (length bs) < MAX_BOOKINGS_PER_DAY cfg))"
    by blast
  show ?thesis
  proof (cases r)
    case (Some a)
    with r have "fst (suggestAlternateDate cfg svc d la lo) = Inr (Some a)"
      by (simp add: suggestAlternateDate_def fst_catch fst_await Let_def)
    with some Some show ?thesis by auto
  next
    case None
    with r r' have "fst (suggestAlternateDate cfg svc d la lo) = Inr r'"
      by (simp add: suggestAlternateDate_def fst_catch fst_await Let_def)
    moreover from none None iff
    have "r' \<noteq> None \<longleftrightarrow>
            (\<exists>i \<in> set ?offsets. isWorkingDay cfg (Day (d + i)) \<and>
               (\<exists>bs. getBookingsByDate svc (d + i) = Inr bs \<and>
                  (bs = [] \<or> int (length bs) < MAX_BOOKINGS_PER_DAY cfg)))"
      by blast
    ultimately show ?thesis by auto
  qed
qed

lemma validateBooking_returns:
  assumes "request_booking_date bookingRequest = OnDay d"
    and "isWorkingDay cfg (Day d)"
  shows "\<exists>v. fst (validateBooking cfg svc bookingRequest) = Inr v"
  using assms by (simp add: validateBooking_def fst_catch split: sum.splits)

lemma validateBooking_day_full:
  assumes "request_booking_date bookingRequest = OnDay d"
    and "isWorkingDay cfg (Day d)"
    and "geocodeAddress svc (request_address bookingRequest) = Inr g"
    and "getDistanceAndTime svc (BASE_LOCATION cfg) (lat g, lng g) = Inr fromBase"
    and "distance fromBase \<le> MAX_SERVICE_RADIUS_MILES cfg"
    and "getBookingsByDate svc d = Inr existingBookings"
    and "MAX_BOOKINGS_PER_DAY cfg \<le> int (length existingBookings)"
    and "fst (suggestAlternateDate cfg svc d (lat g) (lng g)) = Inr a"
  shows "fst (validateBooking cfg svc bookingRequest) = Inr (day_full (length existingBookings) a)"
  using assms
  by (simp add: validateBooking_def validateOnDay_def fst_catch fst_await
      checkDistanceFromLowell_def)

lemma validateBooking_not_day_full:
  assumes "request_booking_date bookingRequest = OnDay d"
    and "isWorkingDay cfg (Day d)"
    and "geocodeAddress svc (request_address bookingRequest) = Inr g"
    and "getDistanceAndTime svc (BASE_LOCATION cfg) (lat g, lng g) = Inr fromBase"
    and "distance fromBase \<le> MAX_SERVICE_RADIUS_MILES cfg"
    and "getBookingsByDate svc d = Inr existingBookings"
    and "int (length existingBookings) < MAX_BOOKINGS_PER_DAY cfg"
    and "fst (validateBooking cfg svc bookingRequest) = Inr v"
  shows "reason v \<noteq> ''day_full''"
  using assms
  by (auto simp: validateBooking_def validateOnDay_def fst_catch fst_await
      checkDistanceFromLowell_def Let_def split: sum.splits option.splits if_splits)

text \<open>
  C2 (as amended). For a request that passes the working-day, geocode and service-radius
  gates, the verdict is \<open>day_full\<close> exactly when the day's booking count has reached
  \<open>MAX_BOOKINGS_PER_DAY\<close>. The \<open>day_full\<close> verdict carries the \<open>alternateDate\<close> field,
  holding what the alternate-date finder returned. That is a suggestion when, among
  the next \<open>MAX_DAYS_TO_SUGGEST\<close> days, some working day is empty or below capacity
  (the store and the distance service answering every call), and \<open>null\<close> otherwise.
\<close>

theorem capacity_gate:
  assumes "request_booking_date bookingRequest = OnDay d"
    and "isWorkingDay cfg (Day d)"
    and "geocodeAddress svc (request_address bookingRequest) = Inr g"
    and "getDistanceAndTime svc (BASE_LOCATION cfg) (lat g, lng g) = Inr fromBase"
    and "distance fromBase \<le> MAX_SERVICE_RADIUS_MILES cfg"
    and "getBookingsByDate svc d = Inr existingBookings"
  shows "\<exists>v. fst (validateBooking cfg svc bookingRequest) = Inr v \<and>
           (reason v = ''day_full'' \<longleftrightarrow>
              MAX_BOOKINGS_PER_DAY cfg \<le> int (length existingBookings)) \<and>
           (reason v = ''day_full'' \<longrightarrow>
              (\<exists>a. fst (suggestAlternateDate cfg svc d (lat g) (lng g)) = Inr a \<and>
                   v = day_full (length existingBookings) a \<and>
                   alternateDate v = Some a \<and>
                   ((\<forall>dd. \<exists>bs. getBookingsByDate svc dd = Inr bs) \<and>
                    (\<forall>p q. \<exists>r. getDistanceAndTime svc p q = Inr r) \<longrightarrow>
                    (a \<noteq> None \<longleftrightarrow>
                       (\<exists>i \<in> {1 .. MAX_DAYS_TO_SUGGEST cfg}.
                          isWorkingDay cfg (Day (d + i)) \<and>
                          (\<exists>bs. getBookingsByDate svc (d + i) = Inr bs \<and>
                             (bs = [] \<or> int (length bs) < MAX_BOOKINGS_PER_DAY cfg)))))))"
proof (cases "MAX_BOOKINGS_PER_DAY cfg \<le> int (length existingBookings)")
  case True
  obtain a where a: "fst (suggestAlternateDate cfg svc d (lat g) (lng g)) = Inr a"
    using suggestAlternateDate_returns by blast
  have v: "fst (validateBooking cfg svc bookingRequest) = Inr (day_full (length existingBookings) a)"
    using assms True a by (rule validateBooking_day_full)
  have "a \<noteq> None \<longleftrightarrow>
          (\<exists>i \<in> {1 .. MAX_DAYS_TO_SUGGEST cfg}.
             isWorkingDay cfg (Day (d + i)) \<and>
             (\<exists>bs. getBookingsByDate svc (d + i) = Inr bs \<and>
                (bs = [] \<or> int (length bs) < MAX_BOOKINGS_PER_DAY cfg)))"
    if "\<forall>dd. \<exists>bs. getBookingsByDate svc dd = Inr bs"
      and "\<forall>p q. \<exists>r. getDistanceAndTime svc p q = Inr r"
    using suggestAlternateDate_result [of svc cfg d "lat g" "lng g"] that a by auto
  with v a True show ?thesis by auto
next
  case False
  obtain v where v: "fst (validateBooking cfg svc bookingRequest) = Inr v"
    using validateBooking_returns [OF assms(1,2)] by blast
  have "reason v \<noteq> ''day_full''"
    using assms False v by (intro validateBooking_not_day_full [where v = v]) auto
  with v False show ?thesis by auto
qed


theorem capacity_gate_witness:
  "MAX_BOOKINGS_PER_DAY config \<le> int (length (busyFortnightStore 20450)) \<and>
   busyFortnightStore (20450 + 8) = [] \<and>
   (\<exists>v a. fst (validateBooking config (exampleServices busyFortnightStore)
                  (nashuaRequest (OnDay 20450) None)) = Inr v \<and>
          reason v = ''day_full'' \<and> alternateDate v = Some (Some a))"
proof -
  have full: "MAX_BOOKINGS_PER_DAY config \<le> int (length (busyFortnightStore 20450))"
    by (simp add: config_def busyFortnightStore_def fullDay_def)
  have empty: "busyFortnightStore (20450 + 8) = []"
    by (simp add: busyFortnightStore_def)
  have window: "(8 :: int) \<in> {1 .. MAX_DAYS_TO_SUGGEST config}"
    by (simp add: config_def)
  have date: "request_booking_date (nashuaRequest (OnDay 20450) None) = OnDay 20450"
    by simp
  have geo: "geocodeAddress (exampleServices busyFortnightStore)
               (request_address (nashuaRequest (OnDay 20450) None)) = Inr nashua"
    by simp
  have base: "getDistanceAndTime (exampleServices busyFortnightStore) (BASE_LOCATION config)
                (lat nashua, lng nashua) = Inr \<lparr> distance = 15, duration = 26 \<rparr>"
    by simp
  have store: "getBookingsByDate (exampleServices busyFortnightStore) 20450
                 = Inr (busyFortnightStore 20450)"
    by simp
  from capacity_gate
         [where bookingRequest = "nashuaRequest (OnDay 20450) None" and d = 20450
            and cfg = config and svc = "exampleServices busyFortnightStore"
            and g = nashua and fromBase = "\<lparr> distance = 15, duration = 26 \<rparr>"
            and existingBookings = "busyFortnightStore 20450",
          OF date isWorkingDay_config geo base nashua_within_radius store]
  obtain v where v: "fst (validateBooking config (exampleServices busyFortnightStore)
                            (nashuaRequest (OnDay 20450) None)) = Inr v"
    and full_iff: "reason v = ''day_full'' \<longleftrightarrow>
                     MAX_BOOKINGS_PER_DAY config \<le> int (length (busyFortnightStore 20450))"
    and alt: "reason v = ''day_full'' \<longrightarrow>
       (\<exists>a. fst (suggestAlternateDate config (exampleServices busyFortnightStore) 20450
                    (lat nashua) (lng nashua)) = Inr a \<and>
            v = day_full (length (busyFortnightStore 20450)) a \<and>
            alternateDate v = Some a \<and>
            ((\<forall>dd. \<exists>bs. getBookingsByDate (exampleServices busyFortnightStore) dd = Inr bs) \<and>
             (\<forall>p q. \<exists>r. getDistanceAndTime (exampleServices busyFortnightStore) p q = Inr r) \<longrightarrow>
             (a \<noteq> None \<longleftrightarrow>
                (\<exists>i \<in> {1 .. MAX_DAYS_TO_SUGGEST config}.
                   isWorkingDay config (Day (20450 + i)) \<and>
                   (\<exists>bs. getBookingsByDate (exampleServices busyFortnightStore) (20450 + i)
                            = Inr bs \<and>
                      (bs = [] \<or> int (length bs) < MAX_BOOKINGS_PER_DAY config))))))"
    by blast
  from full full_iff have r: "reason v = ''day_full''" by simp
  with alt exampleServices_answer [of busyFortnightStore] obtain a
    where a: "alternateDate v = Some a"
      and iff: "a \<noteq> None \<longleftrightarrow>
                (\<exists>i \<in> {1 .. MAX_DAYS_TO_SUGGEST config}.
                   isWorkingDay config (Day (20450 + i)) \<and>
                   (\<exists>bs. getBookingsByDate (exampleServices busyFortnightStore) (20450 + i)
                            = Inr bs \<and>
                      (bs = [] \<or> int (length bs) < MAX_BOOKINGS_PER_DAY config)))"
    by blast
  have "\<exists>i \<in> {1 .. MAX_DAYS_TO_SUGGEST config}.
           isWorkingDay config (Day (20450 + i)) \<and>
           (\<exists>bs. getBookingsByDate (exampleServices busyFortnightStore) (20450 + i) = Inr bs \<and>
              (bs = [] \<or> int (length bs) < MAX_BOOKINGS_PER_DAY config))"
    using window empty isWorkingDay_config [of "20450 + 8"]
    by (intro bexI [where x = 8]) simp_all
  with iff have "a \<noteq> None" by simp
  with a v r full empty show ?thesis by auto
qed

text \<open>
  C2, the claim as worded, fails: when the requested day and each of the following
  fourteen days already hold three bookings, the \<open>day_full\<close> verdict carries
  \<open>alternateDate = null\<close>, no suggestion.
\<close>

theorem day_full_without_suggestion:
  "MAX_BOOKINGS_PER_DAY config \<le> int (length (fullStore 20444)) \<and>
   fst (validateBooking config (exampleServices fullStore) (nashuaRequest (OnDay 20444) None))
     = Inr (day_full 3 None) \<and>
   alternateDate (day_full 3 None) = Some None"
proof -
  have full: "MAX_BOOKINGS_PER_DAY config \<le> int (length (fullStore 20444))"
    by (simp add: config_def fullStore_def fullDay_def)
  have "fst (validateBooking config (exampleServices fullStore)
               (nashuaRequest (OnDay 20444) None))
          = Inr (day_full (length (fullStore 20444)) None)"
    by (rule validateBooking_day_full
              [where d = 20444 and g = nashua
                 and fromBase = "\<lparr> distance = 15, duration = 26 \<rparr>",
               OF _ isWorkingDay_config _ _ nashua_within_radius _ full
                  fullStore_no_alternate])
       simp_all
  with full show ?thesis by (simp add: fullStore_def fullDay_def)
qed

section \<open>Anchor-proximity gate and time-slot gate\<close>

lemma conflictsWith_nonempty:
  "conflictsWith svc requestedMinutes bs \<noteq> [] \<longleftrightarrow>
     (\<exists>b \<in> set bs. \<exists>r m. requestedMinutes = Some r \<and>
        timeToMinutes svc (booking_time b) = Some m \<and> \<bar>r - m\<bar> < 240)"
  by (induction bs) (auto simp: Let_def split: option.splits)

lemma checkTimeAvailability_conflict:
  "\<not> timeCheckValid (checkTimeAvailability cfg svc bs requestedTime) \<longleftrightarrow>
     (\<exists>t. requestedTime = Some t \<and> t \<noteq> [] \<and>
        (\<exists>b \<in> set bs. \<exists>r m. timeToMinutes svc t = Some r \<and>
           timeToMinutes svc (booking_time b) = Some m \<and> \<bar>r - m\<bar> < 240))"
proof (cases requestedTime)
  case None
  then show ?thesis by (simp add: checkTimeAvailability_def)
next
  case (Some t)
  show ?thesis
  proof (cases "t = [] \<or> bs = []")
    case True
    with Some show ?thesis by (auto simp: checkTimeAvailability_def)
  next
    case False
    with Some conflictsWith_nonempty [of svc "timeToMinutes svc t" bs] show ?thesis
      by (simp add: checkTimeAvailability_def Let_def)
  qed
qed

text \<open>
  C1. On a day that has an anchor booking, a request that has passed the earlier gates
  (working day, geocoding, service radius, capacity) is rejected with
  \<open>too_far_from_anchor\<close> exactly when the reported distance from the anchor exceeds
  \<open>MAX_DISTANCE_FROM_ANCHOR_MILES\<close> or the reported duration exceeds
  \<open>MAX_TRAVEL_TIME_FROM_ANCHOR_MINUTES\<close>; either one suffices. It goes on to the
  time-slot gate (and so ends as \<open>time_conflict\<close> or \<open>valid_booking\<close>) exactly when both
  are within their thresholds.
\<close>

theorem anchor_proximity_gate:
  assumes "request_booking_date bookingRequest = OnDay d"
    and "isWorkingDay cfg (Day d)"
    and "geocodeAddress svc (request_address bookingRequest) = Inr g"
    and "getDistanceAndTime svc (BASE_LOCATION cfg) (lat g, lng g) = Inr fromBase"
    and "distance fromBase \<le> MAX_SERVICE_RADIUS_MILES cfg"
    and "getBookingsByDate svc d = Inr existingBookings"
    and "int (length existingBookings) < MAX_BOOKINGS_PER_DAY cfg"
    and "find is_anchor existingBookings = Some anchorBooking"
    and "getDistanceAndTime svc (latitude anchorBooking, longitude anchorBooking)
           (lat g, lng g) = Inr fromAnchor"
  shows "\<exists>v. fst (validateBooking cfg svc bookingRequest) = Inr v \<and>
           (reason v = ''too_far_from_anchor'' \<longleftrightarrow>
              MAX_DISTANCE_FROM_ANCHOR_MILES cfg < distance fromAnchor \<or>
              MAX_TRAVEL_TIME_FROM_ANCHOR_MINUTES cfg < duration fromAnchor) \<and>
           (reason v = ''time_conflict'' \<or> reason v = ''valid_booking'' \<longleftrightarrow>
              distance fromAnchor \<le> MAX_DISTANCE_FROM_ANCHOR_MILES cfg \<and>
              duration fromAnchor \<le> MAX_TRAVEL_TIME_FROM_ANCHOR_MINUTES cfg)"
proof -
  obtain alt where alt: "fst (suggestAlternateDate cfg svc d (lat g) (lng g)) = Inr alt"
    using suggestAlternateDate_returns by blast
  have ne: "existingBookings \<noteq> []"
    using assms(8) by (rule find_Some_nonempty)
  show ?thesis
    using assms ne alt
    by (auto simp: validateBooking_def validateOnDay_def call_geocodeAddress_def
        checkDistanceFromLowell_def checkDistanceFromAnchor_def call_getDistanceAndTime_def
        ret_def call_getBookingsByDate_def Let_def await_def catch_def)
qed

theorem anchor_proximity_gate_witness:
  "MAX_DISTANCE_FROM_ANCHOR_MILES config < 253 / 10 \<and>
   find is_anchor (worcesterStore 20444) = Some (worcesterBooking ''11:30'' True) \<and>
   (\<exists>v. fst (validateBooking config (exampleServices worcesterStore)
                (nashuaRequest (OnDay 20444) (Some ''16:00''))) = Inr v \<and>
        reason v = ''too_far_from_anchor'')"
  using anchor_proximity_gate
          [where bookingRequest = "nashuaRequest (OnDay 20444) (Some ''16:00'')"
             and cfg = config and svc = "exampleServices worcesterStore"
             and d = 20444 and g = nashua
             and fromBase = "\<lparr> distance = 15, duration = 26 \<rparr>"
             and existingBookings = "[worcesterBooking ''11:30'' True]"
             and anchorBooking = "worcesterBooking ''11:30'' True"
             and fromAnchor = "\<lparr> distance = 253 / 10, duration = 44 \<rparr>"]
        isWorkingDay_20444
  by (auto simp add: nashuaRequest_def exampleServices_def
        exampleGeocode_def exampleDistance_def worcesterStore_def worcesterBooking_def
        nashua_def albany_def config_def)

text \<open>
  C5. A request that reaches the time-slot gate is rejected with \<open>time_conflict\<close> exactly
  when it names a time and some booking of that day lies less than 240 minutes from it,
  the distance being the plain absolute difference of the minutes since midnight.
  Without a requested time the gate lets the request through, as \<open>valid_booking\<close>.
\<close>

theorem time_slot_gate:
  assumes "request_booking_date bookingRequest = OnDay d"
    and "isWorkingDay cfg (Day d)"
    and "geocodeAddress svc (request_address bookingRequest) = Inr g"
    and "getDistanceAndTime svc (BASE_LOCATION cfg) (lat g, lng g) = Inr fromBase"
    and "distance fromBase \<le> MAX_SERVICE_RADIUS_MILES cfg"
    and "getBookingsByDate svc d = Inr existingBookings"
    and "int (length existingBookings) < MAX_BOOKINGS_PER_DAY cfg"
    and "find is_anchor existingBookings = Some anchorBooking"
    and "getDistanceAndTime svc (latitude anchorBooking, longitude anchorBooking)
           (lat g, lng g) = Inr fromAnchor"
    and "distance fromAnchor \<le> MAX_DISTANCE_FROM_ANCHOR_MILES cfg"
    and "duration fromAnchor \<le> MAX_TRAVEL_TIME_FROM_ANCHOR_MINUTES cfg"
  shows "\<exists>v. fst (validateBooking cfg svc bookingRequest) = Inr v \<and>
           (reason v = ''time_conflict'' \<longleftrightarrow>
              (\<exists>t. request_booking_time bookingRequest = Some t \<and> t \<noteq> [] \<and>
                 (\<exists>b \<in> set existingBookings. \<exists>requested booked.
                    timeToMinutes svc t = Some requested \<and>
                    timeToMinutes svc (booking_time b) = Some booked \<and>
                    \<bar>requested - booked\<bar> < 240))) \<and>
           (reason v \<noteq> ''time_conflict'' \<longrightarrow>
              v = valid_booking g (distance fromBase) (duration fromBase) (distance fromAnchor) (duration fromAnchor))"
proof -
  have ne: "existingBookings \<noteq> []"
    using assms(8) by (rule find_Some_nonempty)
  show ?thesis
    using assms ne
      checkTimeAvailability_conflict
        [of cfg svc existingBookings "request_booking_time bookingRequest"]
    by (auto simp: validateBooking_def validateOnDay_def call_geocodeAddress_def
        checkDistanceFromLowell_def checkDistanceFromAnchor_def call_getDistanceAndTime_def
        ret_def call_getBookingsByDate_def Let_def)
qed

theorem time_slot_gate_witness:
  "find is_anchor (hudsonStore 20444) = Some (hudsonBooking ''11:30'' True) \<and>
   timeToMinutes (exampleServices hudsonStore) ''09:00'' = Some 540 \<and>
   timeToMinutes (exampleServices hudsonStore) ''11:30'' = Some 690 \<and>
   (\<exists>v. fst (validateBooking config (exampleServices hudsonStore)
                (nashuaRequest (OnDay 20444) (Some ''09:00''))) = Inr v \<and>
        reason v = ''time_conflict'')"
proof -
  have t1: "timeToMinutes (exampleServices hudsonStore) ''09:00'' = Some 540"
    by (simp add: timeToMinutes_def exampleServices_def decimalNumber_def isDigit_def)
  have t2: "timeToMinutes (exampleServices hudsonStore) ''11:30'' = Some 690"
    by (simp add: timeToMinutes_def exampleServices_def decimalNumber_def isDigit_def)
  show ?thesis
  using time_slot_gate
          [where bookingRequest = "nashuaRequest (OnDay 20444) (Some ''09:00'')"
             and cfg = config and svc = "exampleServices hudsonStore"
             and d = 20444 and g = nashua
             and fromBase = "\<lparr> distance = 15, duration = 26 \<rparr>"
             and existingBookings = "[hudsonBooking ''11:30'' True]"
             and anchorBooking = "hudsonBooking ''11:30'' True"
             and fromAnchor = "\<lparr> distance = 35 / 10, duration = 8 \<rparr>"]
        isWorkingDay_20444 t1 t2
  by (auto simp add: nashuaRequest_def exampleServices_def
        exampleGeocode_def exampleDistance_def hudsonStore_def hudsonBooking_def
        nashua_def albany_def config_def)
qed

text \<open>
  No wraparound: a request for 00:30 does not conflict with a booking at 23:30 of the
  same date, the two being 1380 minutes apart as minutes since midnight.
\<close>

lemma time_difference_does_not_wrap:
  "checkTimeAvailability config (exampleServices emptyStore)
     [hudsonBooking ''23:30'' True] (Some ''00:30'') = TimeSlotAvailable"
  by (simp add: checkTimeAvailability_def timeToMinutes_def exampleServices_def
      decimalNumber_def isDigit_def hudsonBooking_def Let_def)

section \<open>The auto-scheduler's window\<close>

lemma snd_await:
  "snd (await m f) = (case fst m of Inl e \<Rightarrow> snd m | Inr x \<Rightarrow> snd m @ snd (f x))"
  by (simp add: await_def split: sum.splits)

lemma snd_catch:
  "snd (catch m h) = (case fst m of Inl e \<Rightarrow> snd m @ snd (h e) | Inr x \<Rightarrow> snd m)"
  by (cases "fst m") (simp_all add: catch_def)

lemma snd_ret [simp]: "snd (ret x) = []"
  by (simp add: ret_def)

lemma lift_simps [simp]: "fst (lift r) = r" "snd (lift r) = []"
  by (simp_all add: lift_def)

lemma snd_call [simp]:
  "snd (call_getBookingsByDate svc d) = [getBookingsByDate_call d]"
  "snd (call_geocodeAddress svc a) = [geocodeAddress_call a]"
  "snd (call_getDistanceAndTime svc p q) = [getDistanceAndTime_call p q]"
  by (simp_all add: call_getBookingsByDate_def call_geocodeAddress_def call_getDistanceAndTime_def)

lemma datesRead_append [simp]: "datesRead (xs @ ys) = datesRead xs @ datesRead ys"
  by (induction xs rule: datesRead.induct) simp_all

lemma datesRead_checkDistanceFromAnchor [simp]:
  "datesRead (snd (checkDistanceFromAnchor cfg svc la lo ala alo aaddr)) = []"
  by (simp add: checkDistanceFromAnchor_def snd_await Let_def split: sum.splits)

lemma datesRead_checkDistanceFromLowell [simp]:
  "datesRead (snd (checkDistanceFromLowell cfg svc la lo)) = []"
  by (simp add: checkDistanceFromLowell_def snd_await Let_def split: sum.splits)


lemma scheduleLoop_step:
  "(fst (scheduleLoop cfg svc g lowellCheck (Day s) (off # rest))
      = fst (scheduleLoop cfg svc g lowellCheck (Day s) rest) \<and>
    datesRead (snd (scheduleLoop cfg svc g lowellCheck (Day s) (off # rest)))
      = (if isWorkingDay cfg (Day (s + off)) then [s + off] else [])
        @ datesRead (snd (scheduleLoop cfg svc g lowellCheck (Day s) rest)))
   \<or>
   (isWorkingDay cfg (Day (s + off)) \<and>
    datesRead (snd (scheduleLoop cfg svc g lowellCheck (Day s) (off # rest))) = [s + off] \<and>
    ((\<exists>e. fst (scheduleLoop cfg svc g lowellCheck (Day s) (off # rest)) = Inl e \<and>
          (getBookingsByDate svc (s + off) = Inl e \<or>
           (\<exists>p q. getDistanceAndTime svc p q = Inl e))) \<or>
     (\<exists>bs t ac. getBookingsByDate svc (s + off) = Inr bs \<and>
          int (length bs) < MAX_BOOKINGS_PER_DAY cfg \<and>
          pickTimeSlot cfg bs = Some t \<and> t \<noteq> [] \<and>
          (case ac of None \<Rightarrow> bs = [] | Some c \<Rightarrow> bs \<noteq> [] \<and> check_valid c) \<and>
          fst (scheduleLoop cfg svc g lowellCheck (Day s) (off # rest))
            = Inr (scheduled (s + off) t (bs = []) g lowellCheck ac))))"
  by (auto simp: Let_def fst_await snd_await checkDistanceFromAnchor_def
      split: sum.splits list.splits option.splits if_splits)


lemma scheduleLoop_reads:
  "length (datesRead (snd (scheduleLoop cfg svc g lowellCheck (Day s) offsets)))
     \<le> length offsets \<and>
   set (datesRead (snd (scheduleLoop cfg svc g lowellCheck (Day s) offsets)))
     \<subseteq> {ds. \<exists>off \<in> set offsets. ds = s + off \<and> isWorkingDay cfg (Day ds)}"
proof (induction offsets)
  case Nil
  show ?case by simp
next
  case (Cons off rest)
  from scheduleLoop_step [of cfg svc g lowellCheck s off rest] Cons
  show ?case by (auto split: if_splits)
qed

lemma scheduleLoop_cases:
  obtains (skip)
      "fst (scheduleLoop cfg svc g lowellCheck (Day s) (off # rest))
         = fst (scheduleLoop cfg svc g lowellCheck (Day s) rest)"
  | (exn) e where
      "fst (scheduleLoop cfg svc g lowellCheck (Day s) (off # rest)) = Inl e"
      "getBookingsByDate svc (s + off) = Inl e \<or> (\<exists>p q. getDistanceAndTime svc p q = Inl e)"
  | (found) bs t ac where
      "isWorkingDay cfg (Day (s + off))"
      "getBookingsByDate svc (s + off) = Inr bs"
      "int (length bs) < MAX_BOOKINGS_PER_DAY cfg"
      "pickTimeSlot cfg bs = Some t" "t \<noteq> []"
      "case ac of None \<Rightarrow> bs = [] | Some c \<Rightarrow> bs \<noteq> [] \<and> check_valid c"
      "fst (scheduleLoop cfg svc g lowellCheck (Day s) (off # rest))
         = Inr (scheduled (s + off) t (bs = []) g lowellCheck ac)"
  using scheduleLoop_step [of cfg svc g lowellCheck s off rest] by blast

lemma scheduleLoop_no_exception:
  assumes store: "\<And>dd. \<exists>bs. getBookingsByDate svc dd = Inr bs"
    and answers: "\<And>p q. \<exists>r. getDistanceAndTime svc p q = Inr r"
  shows "\<exists>v. fst (scheduleLoop cfg svc g lowellCheck (Day s) offsets) = Inr v"
proof (induction offsets)
  case Nil
  show ?case by simp
next
  case (Cons off rest)
  show ?case
  proof (cases rule: scheduleLoop_cases [of cfg svc g lowellCheck s off rest])
    case skip
    with Cons show ?thesis by simp
  next
    case (exn e)
    from exn(2) show ?thesis
    proof
      assume "getBookingsByDate svc (s + off) = Inl e"
      with store [of "s + off"] show ?thesis by simp
    next
      assume "\<exists>p q. getDistanceAndTime svc p q = Inl e"
      then obtain p q where "getDistanceAndTime svc p q = Inl e" by blast
      with answers [of p q] show ?thesis by simp
    qed
  next
    case (found bs t ac)
    then show ?thesis by simp
  qed
qed

lemma shiftLoop_Day:
  "\<exists>m. shiftLoop cfg (Day n) k = Day m \<and> n \<le> m"
proof (induction cfg "Day n" k arbitrary: n rule: shiftLoop.induct)
  case (1 cfg safety)
  show ?case
  proof (cases "\<not> isWorkingDay cfg (Day n) \<and> safety < 14")
    case True
    with 1 [of "n + 1"] obtain m where "shiftLoop cfg (Day (n + 1)) (safety + 1) = Day m"
      and "n + 1 \<le> m" by auto
    with True show ?thesis by (subst shiftLoop.simps) simp
  next
    case False
    then show ?thesis by (subst shiftLoop.simps) auto
  qed
qed

lemma normalizeStartDate_Day:
  "\<exists>start. normalizeStartDate cfg today dateString = Day start \<and> today \<le> start"
proof (cases dateString)
  case NoDate
  with shiftLoop_Day [of cfg today 0] show ?thesis
    by (simp add: normalizeStartDate_def shiftToWorkingDay_def)
next
  case BadDate
  with shiftLoop_Day [of cfg today 0] show ?thesis
    by (simp add: normalizeStartDate_def shiftToWorkingDay_def)
next
  case (OnDay parsed)
  with shiftLoop_Day [of cfg "if parsed < today then today else parsed" 0] show ?thesis
    by (auto simp: normalizeStartDate_def shiftToWorkingDay_def Let_def)
qed


lemma pickTimeSlot_Some:
  assumes "pickTimeSlot cfg bs = Some t"
  shows "t \<in> set (DEFAULT_TIME_SLOTS cfg) \<and> t \<notin> booking_time ` set bs"
  using assms by (auto simp: pickTimeSlot_def find_Some_iff)

lemma autoScheduleBooking_unfold:
  assumes "geocodeAddress svc (request_address bookingRequest) = Inr g"
    and "getDistanceAndTime svc (BASE_LOCATION cfg) (lat g, lng g) = Inr fromBase"
    and "distance fromBase \<le> MAX_SERVICE_RADIUS_MILES cfg"
    and "normalizeStartDate cfg today
           (orElse (preferred_start_date bookingRequest) (request_booking_date bookingRequest))
         = Day start"
    and "lowellCheck = \<lparr> check_valid = True, check_distance = distance fromBase,
                          check_travelTime = duration fromBase, check_anchorAddress = None \<rparr>"
  shows "fst (autoScheduleBooking cfg svc today bookingRequest) =
           (case fst (scheduleLoop cfg svc g lowellCheck (Day start)
                        [0 .. MAX_DAYS_TO_SUGGEST cfg]) of
              Inl e \<Rightarrow> Inr (auto_schedule_error (''Error auto-scheduling booking: '' @ message e))
            | Inr v \<Rightarrow> Inr v)"
    and "snd (autoScheduleBooking cfg svc today bookingRequest) =
           geocodeAddress_call (request_address bookingRequest) #
           getDistanceAndTime_call (BASE_LOCATION cfg) (lat g, lng g) #
           snd (scheduleLoop cfg svc g lowellCheck (Day start) [0 .. MAX_DAYS_TO_SUGGEST cfg])"
  using assms
  by (simp_all add: autoScheduleBooking_def fst_catch snd_catch fst_await snd_await
      checkDistanceFromLowell_def Let_def split: sum.splits)


lemma referenceBooking_Nil [simp]: "referenceBooking [] = None"
  by (simp add: referenceBooking_def)

lemma referenceBooking_Cons:
  "referenceBooking (b # bs) = Some (case find is_anchor (b # bs) of Some a \<Rightarrow> a | None \<Rightarrow> b)"
  by (simp add: referenceBooking_def split: option.splits)

lemma scheduleLoop_day:
  "(\<not> dayFits cfg svc g (s + off) \<and>
    fst (scheduleLoop cfg svc g lowellCheck (Day s) (off # rest))
      = fst (scheduleLoop cfg svc g lowellCheck (Day s) rest) \<and>
    datesRead (snd (scheduleLoop cfg svc g lowellCheck (Day s) (off # rest)))
      = (if isWorkingDay cfg (Day (s + off)) then [s + off] else [])
        @ datesRead (snd (scheduleLoop cfg svc g lowellCheck (Day s) rest)))
   \<or>
   (\<exists>e. fst (scheduleLoop cfg svc g lowellCheck (Day s) (off # rest)) = Inl e \<and>
        (getBookingsByDate svc (s + off) = Inl e \<or>
         (\<exists>p q. getDistanceAndTime svc p q = Inl e)))
   \<or>
   (dayFits cfg svc g (s + off) \<and>
    datesRead (snd (scheduleLoop cfg svc g lowellCheck (Day s) (off # rest))) = [s + off] \<and>
    (\<exists>bs t ac. getBookingsByDate svc (s + off) = Inr bs \<and>
          pickTimeSlot cfg bs = Some t \<and> (case referenceBooking bs of
             None \<Rightarrow> ac = None
           | Some a \<Rightarrow>
               \<exists>c. fst (checkDistanceFromAnchor cfg svc (lat g) (lng g)
                           (latitude a) (longitude a) (address a)) = Inr c \<and>
                   check_valid c \<and> ac = Some c) \<and>
          fst (scheduleLoop cfg svc g lowellCheck (Day s) (off # rest))
            = Inr (scheduled (s + off) t (bs = []) g lowellCheck ac)))"
  by (auto simp: Let_def fst_await snd_await checkDistanceFromAnchor_def dayFits_def
        anchorFit_def freePreferredSlot_def referenceBooking_Cons
      split: sum.splits list.splits option.splits if_splits)


lemma scheduleLoop_day_cases:
  obtains (skip)
      "\<not> dayFits cfg svc g (s + off)"
      "fst (scheduleLoop cfg svc g lowellCheck (Day s) (off # rest))
         = fst (scheduleLoop cfg svc g lowellCheck (Day s) rest)"
      "datesRead (snd (scheduleLoop cfg svc g lowellCheck (Day s) (off # rest)))
         = (if isWorkingDay cfg (Day (s + off)) then [s + off] else [])
           @ datesRead (snd (scheduleLoop cfg svc g lowellCheck (Day s) rest))"
  | (exn) e where
      "fst (scheduleLoop cfg svc g lowellCheck (Day s) (off # rest)) = Inl e"
  | (found) bs t ac where
      "dayFits cfg svc g (s + off)"
      "datesRead (snd (scheduleLoop cfg svc g lowellCheck (Day s) (off # rest))) = [s + off]"
      "getBookingsByDate svc (s + off) = Inr bs"
      "pickTimeSlot cfg bs = Some t"
      "(case referenceBooking bs of
             None \<Rightarrow> ac = None
           | Some a \<Rightarrow>
               \<exists>c. fst (checkDistanceFromAnchor cfg svc (lat g) (lng g)
                           (latitude a) (longitude a) (address a)) = Inr c \<and>
                   check_valid c \<and> ac = Some c)"
      "fst (scheduleLoop cfg svc g lowellCheck (Day s) (off # rest))
         = Inr (scheduled (s + off) t (bs = []) g lowellCheck ac)"
  using scheduleLoop_day [of cfg svc g s off lowellCheck rest] by blast

lemma dayFits_working: "dayFits cfg svc g ds \<Longrightarrow> isWorkingDay cfg (Day ds)"
  by (simp add: dayFits_def)

lemma workingDays_rec:
  "k \<le> off \<Longrightarrow>
   [ds \<leftarrow> map (\<lambda>off. s + off) [k .. off]. isWorkingDay cfg (Day ds)]
     = (if isWorkingDay cfg (Day (s + k)) then [s + k] else [])
       @ [ds \<leftarrow> map (\<lambda>off. s + off) [k + 1 .. off]. isWorkingDay cfg (Day ds)]"
  by (subst upto_rec1) simp_all

lemma scheduleLoop_first_fit:
  assumes "fst (scheduleLoop cfg svc g lowellCheck (Day s) [k .. m]) = Inr v"
  shows "(v = no_slot_available \<and>
          (\<forall>off. k \<le> off \<and> off \<le> m \<longrightarrow> \<not> dayFits cfg svc g (s + off)) \<and>
          datesRead (snd (scheduleLoop cfg svc g lowellCheck (Day s) [k .. m]))
            = [ds \<leftarrow> map (\<lambda>off. s + off) [k .. m]. isWorkingDay cfg (Day ds)])
         \<or>
         (\<exists>off bs t ac. k \<le> off \<and> off \<le> m \<and>
            (\<forall>j. k \<le> j \<and> j < off \<longrightarrow> \<not> dayFits cfg svc g (s + j)) \<and>
            dayFits cfg svc g (s + off) \<and>
            datesRead (snd (scheduleLoop cfg svc g lowellCheck (Day s) [k .. m]))
              = [ds \<leftarrow> map (\<lambda>off. s + off) [k .. off]. isWorkingDay cfg (Day ds)] \<and>
            getBookingsByDate svc (s + off) = Inr bs \<and>
            pickTimeSlot cfg bs = Some t \<and> (case referenceBooking bs of
             None \<Rightarrow> ac = None
           | Some a \<Rightarrow>
               \<exists>c. fst (checkDistanceFromAnchor cfg svc (lat g) (lng g)
                           (latitude a) (longitude a) (address a)) = Inr c \<and>
                   check_valid c \<and> ac = Some c) \<and>
            v = scheduled (s + off) t (bs = []) g lowellCheck ac)"
  using assms
proof (induction "nat (m + 1 - k)" arbitrary: k)
  case 0
  then have "m < k" by simp
  then have "[k .. m] = []" by simp
  with 0 \<open>m < k\<close> show ?case by auto
next
  case (Suc n)
  then have km: "k \<le> m" by simp
  then have up: "[k .. m] = k # [k + 1 .. m]" by (rule upto_rec1)
  from Suc.hyps(2) have n: "n = nat (m + 1 - (k + 1))" by simp
  let ?loop = "\<lambda>offs. scheduleLoop cfg svc g lowellCheck (Day s) offs"
  show ?case
  proof (cases rule: scheduleLoop_day_cases [of cfg svc g s k lowellCheck "[k + 1 .. m]"])
    case skip
    from Suc.prems skip(2) have r: "fst (?loop [k + 1 .. m]) = Inr v"
      by (simp add: up)
    from Suc.hyps(1) [OF n r]
    show ?thesis
    proof (elim disjE conjE exE)
      assume a: "v = no_slot_available"
        "\<forall>off. k + 1 \<le> off \<and> off \<le> m \<longrightarrow> \<not> dayFits cfg svc g (s + off)"
        "datesRead (snd (?loop [k + 1 .. m]))
           = [ds \<leftarrow> map (\<lambda>off. s + off) [k + 1 .. m]. isWorkingDay cfg (Day ds)]"
      have "\<forall>off. k \<le> off \<and> off \<le> m \<longrightarrow> \<not> dayFits cfg svc g (s + off)"
      proof (intro allI impI)
        fix off assume "k \<le> off \<and> off \<le> m"
        then have "off = k \<or> (k + 1 \<le> off \<and> off \<le> m)" by auto
        with a(2) skip(1) show "\<not> dayFits cfg svc g (s + off)" by blast
      qed
      moreover have "datesRead (snd (?loop [k .. m]))
            = [ds \<leftarrow> map (\<lambda>off. s + off) [k .. m]. isWorkingDay cfg (Day ds)]"
        unfolding workingDays_rec [OF km] using skip(3) a(3) by (simp add: up)
      ultimately show ?thesis using a(1) by blast
    next
      fix off bs t ac
      assume a: "k + 1 \<le> off" "off \<le> m"
        "\<forall>j. k + 1 \<le> j \<and> j < off \<longrightarrow> \<not> dayFits cfg svc g (s + j)"
        "dayFits cfg svc g (s + off)"
        "datesRead (snd (?loop [k + 1 .. m]))
           = [ds \<leftarrow> map (\<lambda>off. s + off) [k + 1 .. off]. isWorkingDay cfg (Day ds)]"
        "getBookingsByDate svc (s + off) = Inr bs"
        "pickTimeSlot cfg bs = Some t" "(case referenceBooking bs of
             None \<Rightarrow> ac = None
           | Some a \<Rightarrow>
               \<exists>c. fst (checkDistanceFromAnchor cfg svc (lat g) (lng g)
                           (latitude a) (longitude a) (address a)) = Inr c \<and>
                   check_valid c \<and> ac = Some c)"
        "v = scheduled (s + off) t (bs = []) g lowellCheck ac"
      have e: "\<forall>j. k \<le> j \<and> j < off \<longrightarrow> \<not> dayFits cfg svc g (s + j)"
      proof (intro allI impI)
        fix j assume "k \<le> j \<and> j < off"
        then have "j = k \<or> (k + 1 \<le> j \<and> j < off)" by auto
        with a(3) skip(1) show "\<not> dayFits cfg svc g (s + j)" by blast
      qed
      from a(1) have ko: "k \<le> off" by simp
      have d: "datesRead (snd (?loop [k .. m]))
            = [ds \<leftarrow> map (\<lambda>off. s + off) [k .. off]. isWorkingDay cfg (Day ds)]"
        unfolding workingDays_rec [OF ko] using skip(3) a(5) by (simp add: up)
      show ?thesis
        using ko a(2) e a(4) d a(6-9) by blast
    qed
  next
    case (exn e)
    with Suc.prems show ?thesis by (simp add: up)
  next
    case (found bs t ac)
    from found(6) Suc.prems have v: "v = scheduled (s + k) t (bs = []) g lowellCheck ac"
      by (simp add: up)
    have d: "datesRead (snd (?loop [k .. m]))
            = [ds \<leftarrow> map (\<lambda>off. s + off) [k .. k]. isWorkingDay cfg (Day ds)]"
      using found(2) dayFits_working [OF found(1)] by (simp add: up)
    have e: "\<forall>j. k \<le> j \<and> j < k \<longrightarrow> \<not> dayFits cfg svc g (s + j)" by auto
    show ?thesis
      using km e found(1) d found(3-5) v by blast
  qed
qed


lemma scheduleLoop_asks:
  "(set (snd (scheduleLoop cfg svc g lowellCheck (Day s) rest))
      \<subseteq> set (snd (scheduleLoop cfg svc g lowellCheck (Day s) (off # rest))) \<and>
    fst (scheduleLoop cfg svc g lowellCheck (Day s) (off # rest))
      = fst (scheduleLoop cfg svc g lowellCheck (Day s) rest))
   \<or>
   (\<exists>e. fst (scheduleLoop cfg svc g lowellCheck (Day s) (off # rest)) = Inl e)
   \<or>
   (\<exists>bs. getBookingsByDate svc (s + off) = Inr bs \<and>
        (\<forall>a. referenceBooking bs = Some a \<longrightarrow>
           getDistanceAndTime_call (latitude a, longitude a) (lat g, lng g)
             \<in> set (snd (scheduleLoop cfg svc g lowellCheck (Day s) (off # rest)))) \<and>
        (\<exists>t ia lc ac. fst (scheduleLoop cfg svc g lowellCheck (Day s) (off # rest))
            = Inr (scheduled (s + off) t ia g lc ac)))"
  by (auto simp: Let_def fst_await snd_await checkDistanceFromAnchor_def
        referenceBooking_Cons
      split: sum.splits list.splits option.splits if_splits)


lemma scheduleLoop_asks_anchor:
  assumes "fst (scheduleLoop cfg svc g lowellCheck (Day s) offsets)
             = Inr (scheduled ds t ia gg lc ac)"
    and "getBookingsByDate svc ds = Inr bs"
    and "referenceBooking bs = Some a"
  shows "getDistanceAndTime_call (latitude a, longitude a) (lat g, lng g)
           \<in> set (snd (scheduleLoop cfg svc g lowellCheck (Day s) offsets))"
  using assms(1)
proof (induction offsets)
  case Nil
  then show ?case by simp
next
  case (Cons off rest)
  from scheduleLoop_asks [of cfg svc g lowellCheck s rest off]
  show ?case
  proof (elim disjE conjE exE)
    assume "set (snd (scheduleLoop cfg svc g lowellCheck (Day s) rest))
              \<subseteq> set (snd (scheduleLoop cfg svc g lowellCheck (Day s) (off # rest)))"
      and "fst (scheduleLoop cfg svc g lowellCheck (Day s) (off # rest))
             = fst (scheduleLoop cfg svc g lowellCheck (Day s) rest)"
    with Cons show ?thesis by auto
  next
    fix e
    assume "fst (scheduleLoop cfg svc g lowellCheck (Day s) (off # rest)) = Inl e"
    with Cons.prems show ?thesis by simp
  next
    fix bs' t' ia' lc' ac'
    assume b: "getBookingsByDate svc (s + off) = Inr bs'"
      and c: "\<forall>a. referenceBooking bs' = Some a \<longrightarrow>
           getDistanceAndTime_call (latitude a, longitude a) (lat g, lng g)
             \<in> set (snd (scheduleLoop cfg svc g lowellCheck (Day s) (off # rest)))"
      and r: "fst (scheduleLoop cfg svc g lowellCheck (Day s) (off # rest))
            = Inr (scheduled (s + off) t' ia' g lc' ac')"
    from r Cons.prems have "ds = s + off" by simp
    with b assms(2) have "bs' = bs" by simp
    with c assms(3) show ?thesis by blast
  qed
qed

text \<open>
  C7 (as amended). For an address within the service radius the auto-scheduler scans the
  offsets \<open>0, ..., MAX_DAYS_TO_SUGGEST\<close> from its start date, both ends included, in
  order: it reads the store for at most \<open>MAX_DAYS_TO_SUGGEST + 1\<close> days, each of them a
  working day between the start date and the start date plus \<open>MAX_DAYS_TO_SUGGEST\<close>.
  Its answer is \<open>no_slot_available\<close>, \<open>auto_schedule_error\<close> or a schedule.
  A schedule is on the first day of the window that yields both an anchor fit and a
  free preferred slot: the working days up to that day are exactly the days read, the
  slot is the first preferred slot not taken on it, and the anchor check returned is
  the result of \<open>checkDistanceFromAnchor\<close> against that day's anchor (or first booking),
  which it passes and for which the distance service has been called. The answer
  \<open>no_slot_available\<close> is given only when no day of the window fits, after every working
  day of the window, from offset 0 to offset \<open>MAX_DAYS_TO_SUGGEST\<close>, has been read. When
  the store and the distance service answer every query there is no
  \<open>auto_schedule_error\<close>, and if no day of the window fits the answer is
  \<open>no_slot_available\<close>.
\<close>

theorem autoSchedule_window:
  assumes "geocodeAddress svc (request_address bookingRequest) = Inr g"
    and "getDistanceAndTime svc (BASE_LOCATION cfg) (lat g, lng g) = Inr fromBase"
    and "distance fromBase \<le> MAX_SERVICE_RADIUS_MILES cfg"
  shows "\<exists>start v calls.
           normalizeStartDate cfg today
             (orElse (preferred_start_date bookingRequest) (request_booking_date bookingRequest))
             = Day start \<and>
           autoScheduleBooking cfg svc today bookingRequest = (Inr v, calls) \<and>
           int (length (datesRead calls)) \<le> max 0 (MAX_DAYS_TO_SUGGEST cfg + 1) \<and>
           (\<forall>ds \<in> set (datesRead calls).
              start \<le> ds \<and> ds \<le> start + MAX_DAYS_TO_SUGGEST cfg \<and> isWorkingDay cfg (Day ds)) \<and>
           (v = no_slot_available \<or> (\<exists>m. v = auto_schedule_error m) \<or>
            (\<exists>ds t bs anchorCheck.
               v = scheduled ds t (bs = []) g
                     \<lparr> check_valid = True, check_distance = distance fromBase,
                       check_travelTime = duration fromBase, check_anchorAddress = None \<rparr>
                     anchorCheck \<and>
               start \<le> ds \<and> ds \<le> start + MAX_DAYS_TO_SUGGEST cfg \<and>
               dayFits cfg svc g ds \<and>
               (\<forall>d. start \<le> d \<and> d < ds \<longrightarrow> \<not> dayFits cfg svc g d) \<and>
               datesRead calls
                 = [d \<leftarrow> map (\<lambda>offset. start + offset) [0 .. ds - start].
                      isWorkingDay cfg (Day d)] \<and>
               getBookingsByDate svc ds = Inr bs \<and>
               pickTimeSlot cfg bs = Some t \<and>
               t \<in> set (DEFAULT_TIME_SLOTS cfg) \<and> t \<notin> booking_time ` set bs \<and>
               (case referenceBooking bs of
                  None \<Rightarrow> anchorCheck = None
                | Some a \<Rightarrow>
                    getDistanceAndTime_call (latitude a, longitude a) (lat g, lng g)
                      \<in> set calls \<and>
                    (\<exists>c. fst (checkDistanceFromAnchor cfg svc (lat g) (lng g)
                                 (latitude a) (longitude a) (address a)) = Inr c \<and>
                         check_valid c \<and> anchorCheck = Some c)))) \<and>
           (v = no_slot_available \<longrightarrow>
              (\<forall>ds. start \<le> ds \<and> ds \<le> start + MAX_DAYS_TO_SUGGEST cfg
                      \<longrightarrow> \<not> dayFits cfg svc g ds) \<and>
              datesRead calls
                = [d \<leftarrow> map (\<lambda>offset. start + offset) [0 .. MAX_DAYS_TO_SUGGEST cfg].
                     isWorkingDay cfg (Day d)]) \<and>
           ((\<forall>dd. \<exists>bs. getBookingsByDate svc dd = Inr bs) \<and>
            (\<forall>p q. \<exists>r. getDistanceAndTime svc p q = Inr r) \<longrightarrow>
            (\<forall>m. v \<noteq> auto_schedule_error m) \<and>
            ((\<forall>ds. start \<le> ds \<and> ds \<le> start + MAX_DAYS_TO_SUGGEST cfg
                     \<longrightarrow> \<not> dayFits cfg svc g ds)
               \<longrightarrow> v = no_slot_available))"
proof -
  let ?date = "orElse (preferred_start_date bookingRequest) (request_booking_date bookingRequest)"
  let ?maxDays = "MAX_DAYS_TO_SUGGEST cfg"
  obtain start where start: "normalizeStartDate cfg today ?date = Day start"
    using normalizeStartDate_Day by blast
  define lowellCheck where
    "lowellCheck = \<lparr> check_valid = True, check_distance = distance fromBase,
                      check_travelTime = duration fromBase, check_anchorAddress = None \<rparr>"
  let ?loop = "scheduleLoop cfg svc g lowellCheck (Day start) [0 .. ?maxDays]"
  note unfold = autoScheduleBooking_unfold [OF assms start lowellCheck_def]
  let ?calls = "snd (autoScheduleBooking cfg svc today bookingRequest)"
  let ?reliable = "(\<forall>dd. \<exists>bs. getBookingsByDate svc dd = Inr bs) \<and>
                   (\<forall>p q. \<exists>r. getDistanceAndTime svc p q = Inr r)"
  let ?none = "\<forall>ds. start \<le> ds \<and> ds \<le> start + ?maxDays \<longrightarrow> \<not> dayFits cfg svc g ds"
  let ?all = "[d \<leftarrow> map (\<lambda>offset. start + offset) [0 .. ?maxDays]. isWorkingDay cfg (Day d)]"
  let ?found = "\<lambda>v. \<exists>ds t bs anchorCheck.
               v = scheduled ds t (bs = []) g
                     \<lparr> check_valid = True, check_distance = distance fromBase,
                       check_travelTime = duration fromBase, check_anchorAddress = None \<rparr>
                     anchorCheck \<and>
               start \<le> ds \<and> ds \<le> start + ?maxDays \<and>
               dayFits cfg svc g ds \<and>
               (\<forall>d. start \<le> d \<and> d < ds \<longrightarrow> \<not> dayFits cfg svc g d) \<and>
               datesRead ?calls
                 = [d \<leftarrow> map (\<lambda>offset. start + offset) [0 .. ds - start].
                      isWorkingDay cfg (Day d)] \<and>
               getBookingsByDate svc ds = Inr bs \<and>
               pickTimeSlot cfg bs = Some t \<and>
               t \<in> set (DEFAULT_TIME_SLOTS cfg) \<and> t \<notin> booking_time ` set bs \<and>
               (case referenceBooking bs of
                  None \<Rightarrow> anchorCheck = None
                | Some a \<Rightarrow>
                    getDistanceAndTime_call (latitude a, longitude a) (lat g, lng g)
                      \<in> set ?calls \<and>
                    (\<exists>c. fst (checkDistanceFromAnchor cfg svc (lat g) (lng g)
                                 (latitude a) (longitude a) (address a)) = Inr c \<and>
                         check_valid c \<and> anchorCheck = Some c))"
  have reads: "datesRead ?calls = datesRead (snd ?loop)"
    by (simp add: unfold(2))
  from scheduleLoop_reads [of cfg svc g lowellCheck start "[0 .. ?maxDays]"]
  have len: "length (datesRead (snd ?loop)) \<le> length [0 .. ?maxDays]"
    and sub: "set (datesRead (snd ?loop))
                \<subseteq> {ds. \<exists>off \<in> set [0 .. ?maxDays]. ds = start + off \<and> isWorkingDay cfg (Day ds)}"
    by blast+
  from len reads have count: "int (length (datesRead ?calls)) \<le> max 0 (?maxDays + 1)"
    by simp
  from sub reads have days: "\<forall>ds \<in> set (datesRead ?calls).
      start \<le> ds \<and> ds \<le> start + ?maxDays \<and> isWorkingDay cfg (Day ds)"
    by auto
  show ?thesis
  proof (cases "fst ?loop")
    case (Inl e)
    let ?v = "auto_schedule_error (''Error auto-scheduling booking: '' @ message e)"
    from Inl have v: "fst (autoScheduleBooking cfg svc today bookingRequest) = Inr ?v"
      by (simp add: unfold(1))
    have eq: "autoScheduleBooking cfg svc today bookingRequest = (Inr ?v, ?calls)"
      using v by (simp add: prod_eq_iff)
    have unreliable: "\<not> ?reliable"
    proof
      assume ?reliable
      then have "\<exists>v. fst ?loop = Inr v"
        by (intro scheduleLoop_no_exception) blast+
      with Inl show False by simp
    qed
    have shape: "?v = no_slot_available \<or> (\<exists>m. ?v = auto_schedule_error m) \<or> ?found ?v"
      by blast
    have none: "?v = no_slot_available \<longrightarrow> ?none \<and> datesRead ?calls = ?all"
      by simp
    have rel: "?reliable \<longrightarrow> (\<forall>m. ?v \<noteq> auto_schedule_error m) \<and> (?none \<longrightarrow> ?v = no_slot_available)"
      using unreliable by blast
    show ?thesis
      by (intro exI [where x = start] exI [where x = ?v] exI [where x = ?calls] conjI
            start eq count days shape none rel)
  next
    case (Inr v)
    then have v: "fst (autoScheduleBooking cfg svc today bookingRequest) = Inr v"
      by (simp add: unfold(1))
    have eq: "autoScheduleBooking cfg svc today bookingRequest = (Inr v, ?calls)"
      using v by (simp add: prod_eq_iff)
    from scheduleLoop_first_fit [OF Inr]
    have "(v = no_slot_available \<and> ?none \<and> datesRead ?calls = ?all) \<or> (?found v \<and> \<not> ?none)"
    proof (elim disjE conjE exE)
      assume a: "v = no_slot_available"
        "\<forall>off. 0 \<le> off \<and> off \<le> ?maxDays \<longrightarrow> \<not> dayFits cfg svc g (start + off)"
        "datesRead (snd ?loop)
           = [ds \<leftarrow> map (\<lambda>off. start + off) [0 .. ?maxDays]. isWorkingDay cfg (Day ds)]"
      have ?none
      proof (intro allI impI)
        fix ds assume "start \<le> ds \<and> ds \<le> start + ?maxDays"
        then have "0 \<le> ds - start \<and> ds - start \<le> ?maxDays" by simp
        with a(2) have "\<not> dayFits cfg svc g (start + (ds - start))" by blast
        then show "\<not> dayFits cfg svc g ds" by simp
      qed
      with a(1,3) reads show ?thesis by simp
    next
      fix off bs t ac
      assume a: "0 \<le> off" "off \<le> ?maxDays"
        "\<forall>j. 0 \<le> j \<and> j < off \<longrightarrow> \<not> dayFits cfg svc g (start + j)"
        "dayFits cfg svc g (start + off)"
        "datesRead (snd ?loop)
           = [ds \<leftarrow> map (\<lambda>off. start + off) [0 .. off]. isWorkingDay cfg (Day ds)]"
        "getBookingsByDate svc (start + off) = Inr bs"
        "pickTimeSlot cfg bs = Some t"
        "case referenceBooking bs of
             None \<Rightarrow> ac = None
           | Some a \<Rightarrow>
               \<exists>c. fst (checkDistanceFromAnchor cfg svc (lat g) (lng g)
                           (latitude a) (longitude a) (address a)) = Inr c \<and>
                   check_valid c \<and> ac = Some c"
        "v = scheduled (start + off) t (bs = []) g lowellCheck ac"
      have first: "\<forall>d. start \<le> d \<and> d < start + off \<longrightarrow> \<not> dayFits cfg svc g d"
      proof (intro allI impI)
        fix d assume "start \<le> d \<and> d < start + off"
        then have "0 \<le> d - start \<and> d - start < off" by simp
        with a(3) have "\<not> dayFits cfg svc g (start + (d - start))" by blast
        then show "\<not> dayFits cfg svc g d" by simp
      qed
      have r: "datesRead ?calls
                 = [d \<leftarrow> map (\<lambda>offset. start + offset) [0 .. start + off - start].
                      isWorkingDay cfg (Day d)]"
        using a(5) reads by simp
      have w: "start \<le> start + off" "start + off \<le> start + ?maxDays"
        using a(1,2) by simp_all
      have vv: "v = scheduled (start + off) t (bs = []) g
                     \<lparr> check_valid = True, check_distance = distance fromBase,
                       check_travelTime = duration fromBase, check_anchorAddress = None \<rparr> ac"
        using a(9) by (simp add: lowellCheck_def)
      note slot = pickTimeSlot_Some [OF a(7)]
      from Inr a(9) have "fst ?loop = Inr (scheduled (start + off) t (bs = []) g lowellCheck ac)"
        by simp
      from scheduleLoop_asks_anchor [OF this a(6)]
      have asked: "getDistanceAndTime_call (latitude b, longitude b) (lat g, lng g) \<in> set ?calls"
        if "referenceBooking bs = Some b" for b
        using that by (simp add: unfold(2))
      have check: "case referenceBooking bs of
             None \<Rightarrow> ac = None
           | Some a \<Rightarrow>
               getDistanceAndTime_call (latitude a, longitude a) (lat g, lng g) \<in> set ?calls \<and>
               (\<exists>c. fst (checkDistanceFromAnchor cfg svc (lat g) (lng g)
                            (latitude a) (longitude a) (address a)) = Inr c \<and>
                    check_valid c \<and> ac = Some c)"
        using a(8) asked by (cases "referenceBooking bs") simp_all
      have "?found v"
        by (intro exI [where x = "start + off"] exI [where x = t] exI [where x = bs]
              exI [where x = ac] conjI vv w a(4) first r a(6) a(7)
              slot [THEN conjunct1] slot [THEN conjunct2] check)
      moreover have "\<not> ?none" using w a(4) by blast
      ultimately show ?thesis by blast
    qed
    then have shape: "v = no_slot_available \<or> (\<exists>m. v = auto_schedule_error m) \<or> ?found v"
      and none: "v = no_slot_available \<longrightarrow> ?none \<and> datesRead ?calls = ?all"
      and rel: "?reliable \<longrightarrow> (\<forall>m. v \<noteq> auto_schedule_error m) \<and> (?none \<longrightarrow> v = no_slot_available)"
      by blast+
    show ?thesis
      by (intro exI [where x = start] exI [where x = v] exI [where x = ?calls] conjI
            start eq count days shape none rel)
  qed
qed



lemma normalizeStartDate_config:
  "normalizeStartDate config today NoDate = Day today"
  by (simp add: normalizeStartDate_def shiftToWorkingDay_def shiftLoop.simps isWorkingDay_config)

lemma config_simps:
  "MAX_BOOKINGS_PER_DAY config = 3" "MAX_DAYS_TO_SUGGEST config = 14"
  "DEFAULT_TIME_SLOTS config = [''08:00'', ''11:30'', ''15:00'']"
  by (simp_all add: config_def)

lemma busyFortnight_loop:
  "fst (scheduleLoop config (exampleServices busyFortnightStore) nashua lowellCheck
          (Day 20444) [0 .. 14])
     = Inr (scheduled 20458 ''08:00'' True nashua lowellCheck None)"
  "datesRead (snd (scheduleLoop config (exampleServices busyFortnightStore) nashua lowellCheck
          (Day 20444) [0 .. 14]))
     = [20444, 20445, 20446, 20447, 20448, 20449, 20450, 20451, 20452, 20453, 20454,
        20455, 20456, 20457, 20458]"
  by (simp_all add: upto_0_14 Let_def fst_await snd_await isWorkingDay_config config_simps
      busyFortnightStore_def fullDay_def pickTimeSlot_def)

theorem autoSchedule_window_witness:
  "geocodeAddress (exampleServices hudsonStore) (request_address (nashuaRequest NoDate None))
     = Inr nashua \<and>
   getDistanceAndTime (exampleServices hudsonStore) (BASE_LOCATION config) (lat nashua, lng nashua)
     = Inr \<lparr> distance = 15, duration = 26 \<rparr> \<and>
   distance \<lparr> distance = 15, duration = 26 \<rparr> \<le> MAX_SERVICE_RADIUS_MILES config \<and>
   (\<exists>start v calls.
      normalizeStartDate config 20444 NoDate = Day start \<and>
      autoScheduleBooking config (exampleServices hudsonStore) 20444
        (nashuaRequest NoDate None) = (Inr v, calls) \<and>
      int (length (datesRead calls)) \<le> 15 \<and>
      (\<forall>m. v \<noteq> auto_schedule_error m) \<and>
      ((\<forall>ds. start \<le> ds \<and> ds \<le> start + 14
              \<longrightarrow> \<not> dayFits config (exampleServices hudsonStore) nashua ds)
        \<longrightarrow> v = no_slot_available))"
proof -
  have geo: "geocodeAddress (exampleServices hudsonStore)
               (request_address (nashuaRequest NoDate None)) = Inr nashua"
    by simp
  have base: "getDistanceAndTime (exampleServices hudsonStore) (BASE_LOCATION config)
                (lat nashua, lng nashua) = Inr \<lparr> distance = 15, duration = 26 \<rparr>"
    by simp
  note answers = exampleServices_answer [of hudsonStore]
  from autoSchedule_window [OF geo base nashua_within_radius, of 20444]
  obtain start v calls where r:
    "normalizeStartDate config 20444
       (orElse (preferred_start_date (nashuaRequest NoDate None))
               (request_booking_date (nashuaRequest NoDate None))) = Day start"
    "autoScheduleBooking config (exampleServices hudsonStore) 20444
       (nashuaRequest NoDate None) = (Inr v, calls)"
    "int (length (datesRead calls)) \<le> max 0 (MAX_DAYS_TO_SUGGEST config + 1)"
    "(\<forall>dd. \<exists>bs. getBookingsByDate (exampleServices hudsonStore) dd = Inr bs) \<and>
     (\<forall>p q. \<exists>r. getDistanceAndTime (exampleServices hudsonStore) p q = Inr r) \<longrightarrow>
     (\<forall>m. v \<noteq> auto_schedule_error m) \<and>
     ((\<forall>ds. start \<le> ds \<and> ds \<le> start + MAX_DAYS_TO_SUGGEST config
              \<longrightarrow> \<not> dayFits config (exampleServices hudsonStore) nashua ds)
        \<longrightarrow> v = no_slot_available)"
    by blast
  from r(4) answers have c: "\<forall>m. v \<noteq> auto_schedule_error m"
    "(\<forall>ds. start \<le> ds \<and> ds \<le> start + MAX_DAYS_TO_SUGGEST config
              \<longrightarrow> \<not> dayFits config (exampleServices hudsonStore) nashua ds)
        \<longrightarrow> v = no_slot_available"
    by blast+
  from r(1) have s: "normalizeStartDate config 20444 NoDate = Day start" by simp
  from r(3) have l: "int (length (datesRead calls)) \<le> 15" by (simp add: config_simps)
  from c(2) have n: "(\<forall>ds. start \<le> ds \<and> ds \<le> start + 14
              \<longrightarrow> \<not> dayFits config (exampleServices hudsonStore) nashua ds)
        \<longrightarrow> v = no_slot_available"
    by (simp add: config_simps)
  show ?thesis
    by (intro conjI geo base nashua_within_radius exI [where x = start] exI [where x = v]
          exI [where x = calls] s r(2) l c(1) n)
qed

text \<open>
  C7, the claim as worded, fails: with fourteen full days from the start date on and
  the day after them empty, the scheduler reads the store for fifteen days and returns
  the fifteenth, the start date plus 14, while \<open>MAX_DAYS_TO_SUGGEST\<close> is 14.
\<close>

theorem autoSchedule_reads_fifteen_days:
  "MAX_DAYS_TO_SUGGEST config = 14 \<and>
   normalizeStartDate config 20444 NoDate = Day 20444 \<and>
   fst (autoScheduleBooking config (exampleServices busyFortnightStore) 20444
          (nashuaRequest NoDate None))
     = Inr (scheduled (20444 + 14) ''08:00'' True nashua
              \<lparr> check_valid = True, check_distance = 15, check_travelTime = 26,
                check_anchorAddress = None \<rparr> None) \<and>
   length (datesRead (snd (autoScheduleBooking config (exampleServices busyFortnightStore)
                             20444 (nashuaRequest NoDate None)))) = 15"
proof -
  have geo: "geocodeAddress (exampleServices busyFortnightStore)
               (request_address (nashuaRequest NoDate None)) = Inr nashua"
    by simp
  have base: "getDistanceAndTime (exampleServices busyFortnightStore) (BASE_LOCATION config)
                (lat nashua, lng nashua) = Inr \<lparr> distance = 15, duration = 26 \<rparr>"
    by simp
  have start: "normalizeStartDate config 20444
                 (orElse (preferred_start_date (nashuaRequest NoDate None))
                         (request_booking_date (nashuaRequest NoDate None))) = Day 20444"
    by (simp add: normalizeStartDate_config)
  have check: "\<lparr> check_valid = True, check_distance = 15, check_travelTime = 26,
                  check_anchorAddress = None \<rparr>
               = \<lparr> check_valid = True,
                   check_distance = distance \<lparr> distance = 15, duration = 26 \<rparr>,
                   check_travelTime = duration \<lparr> distance = 15, duration = 26 \<rparr>,
                   check_anchorAddress = None \<rparr>"
    by simp
  note unfold = autoScheduleBooking_unfold [OF geo base nashua_within_radius start check]
  show ?thesis
    by (simp add: unfold config_simps busyFortnight_loop normalizeStartDate_config)
qed


section \<open>Open-slot computation\<close>

lemma timeToMinutes_examples:
  "timeToMinutes (exampleServices store) ''10:00'' = Some 600"
  by (simp add: timeToMinutes_def exampleServices_def decimalNumber_def isDigit_def)

lemma hourSlot_examples:
  "hourSlot 12 = ''12:00''" "hourSlot 14 = ''14:00''" "hourSlot 6 = ''06:00''"
  by (simp_all add: hourSlot_def padStart2_def String_def digitsOf.simps)

lemma slotsFor_nonempty: "slotsFor cfg bookedTimes \<noteq> []"
  by (simp add: slotsFor_def Let_def)

lemma slotsFor_sentinel:
  "slotsFor cfg bookedTimes = [''No available slots''] \<or>
   (slotsFor cfg bookedTimes \<noteq> [] \<and>
    (\<forall>slot \<in> set (slotsFor cfg bookedTimes). \<exists>h. slot = hourSlot h))"
proof -
  have gaps: "\<forall>slot \<in> set (gapSlots ts). \<exists>h. slot = hourSlot h" for ts
    by (induction ts rule: gapSlots.induct) (auto simp: Let_def)
  show ?thesis
    using gaps [of bookedTimes]
    by (auto simp: slotsFor_def Let_def split: list.splits if_splits)
qed

lemma slotsFor_first_candidate:
  assumes "WORK_START_HOUR cfg = 0"
    and "240 \<le> first"
  shows "hd (slotsFor cfg (first # rest)) = hourSlot \<lfloor>(first - 240) / 60\<rfloor>"
  using assms by (simp add: slotsFor_def Let_def Math_floor_def)

text \<open>
  C8. The list returned is never empty (\<open>slotsFor_nonempty\<close>, \<open>slotsFor_sentinel\<close>), and
  with a working window that starts at midnight the first candidate is the hour of
  ``first booking minus 240 minutes'' (\<open>slotsFor_first_candidate\<close>). For a window that
  starts later the slot before the first booking is misplaced: the code adds
  \<open>workStart\<close> to it. With the window starting at 06:00 and one booking at 10:00 there
  is room for the slot 240 minutes before the booking, 06:00, but the first candidate
  proposed is 12:00, after the booking and only 120 minutes from it.
\<close>

theorem open_slot_shifted_by_work_start:
  "findAvailableTimeSlots (config \<lparr> WORK_START_HOUR := 6 \<rparr>) (exampleServices emptyStore)
       [hudsonBooking ''10:00'' True]
     = Some [''12:00'', ''14:00''] \<and>
   timeToMinutes (exampleServices emptyStore) ''10:00'' = Some 600 \<and>
   hourSlot (Math_floor ((600 - 240) / 60)) = ''06:00''"
  by (simp add: findAvailableTimeSlots_def hudsonBooking_def timeToMinutes_examples
      slotsFor_def config_def Let_def Math_floor_def hourSlot_examples)

section \<open>The distance and duration reported by the maps service\<close>

lemma calculateStraightLineDistance_greatCircleMiles:
  "calculateStraightLineDistance fp lat1 lon1 lat2 lon2
     = fl_div fp (of_int (Math_round (fl_mul fp (greatCircleMiles fp lat1 lon1 lat2 lon2) 10))) 10"
  by (simp add: calculateStraightLineDistance_def greatCircleMiles_def Let_def)

lemma near_error:
  assumes "near u x y" and "0 \<le> u" and "u \<le> 1 / 10 ^ 12" and "\<bar>x\<bar> \<le> B" and "B \<le> 10 ^ 300"
  shows "\<bar>y - x\<bar> \<le> (B + 1) / 1000000000000"
proof -
  from assms(4,5) have "\<bar>x\<bar> \<le> 10 ^ 300" by linarith
  with assms(1) have a: "\<bar>y - x\<bar> \<le> u * \<bar>x\<bar> + 1 / 10 ^ 300" by (simp add: near_def)
  have "u * \<bar>x\<bar> \<le> (1 / 10 ^ 12) * B"
    using assms(2,3,4) by (intro mult_mono) auto
  moreover have "(1::real) / 10 ^ 300 \<le> 1 / 10 ^ 12" by simp
  ultimately have "\<bar>y - x\<bar> \<le> (1 / 10 ^ 12) * B + 1 / 10 ^ 12" using a by linarith
  then show ?thesis by (simp add: add_divide_distrib)
qed

lemma accurate_mul: "accurate u fp \<Longrightarrow> near u (x * y) (fl_mul fp x y)"
  by (simp add: accurate_def)

lemma accurate_div: "accurate u fp \<Longrightarrow> y \<noteq> 0 \<Longrightarrow> near u (x / y) (fl_div fp x y)"
  by (simp add: accurate_def)

lemma round_error: "\<bar>of_int \<lfloor>x + 1 / 2\<rfloor> - x\<bar> \<le> (1 / 2 :: real)"
  by linarith

lemma roundTenth_machine:
  assumes acc: "accurate u fp" and u: "0 \<le> u" "u \<le> 1 / 10 ^ 12"
    and x: "\<bar>x\<bar> \<le> 40000"
  shows "\<bar>fl_div fp (of_int (Math_round (fl_mul fp x 10))) 10 - x\<bar> \<le> 1 / 20 + 1 / 10000000"
proof -
  let ?t = "fl_mul fp x 10"
  let ?k = "Math_round ?t"
  let ?s = "fl_div fp (of_int ?k) 10"
  have "\<bar>x * 10\<bar> \<le> 400000" using x by simp
  from near_error [OF accurate_mul [OF acc] u this]
  have t: "\<bar>?t - x * 10\<bar> \<le> 400001 / 1000000000000" by simp
  have k: "\<bar>of_int ?k - ?t\<bar> \<le> 1 / 2"
    unfolding Math_round_def by (rule round_error)
  from t k x have "\<bar>real_of_int ?k\<bar> \<le> 400002" by linarith
  then have "\<bar>real_of_int ?k / 10\<bar> \<le> 40001" by simp
  from near_error [OF accurate_div [OF acc] u this]
  have s: "\<bar>?s - of_int ?k / 10\<bar> \<le> 40002 / 1000000000000" by simp
  from t k s show ?thesis by linarith
qed

lemma pi_ge_3: "3 \<le> pi"
proof -
  have "sin (pi / 6) \<le> pi / 6" by (rule sin_x_le_x) simp
  then show ?thesis by (simp add: sin_30)
qed

lemma arctan_bounds:
  assumes "0 < t" and "t \<le> 1"
  shows "t / 2 \<le> arctan t" and "arctan t \<le> t"
proof -
  have "\<exists>z. 0 < z \<and> z < t \<and> arctan t - arctan 0 = (t - 0) * inverse (1 + z\<^sup>2)"
    using assms(1) by (intro MVT2) (auto intro: DERIV_arctan)
  then obtain z :: real where z: "0 < z" "z < t" "arctan t = t * inverse (1 + z\<^sup>2)"
    by auto
  have "z\<^sup>2 \<le> 1" by (rule power_le_one) (use z(1,2) assms(2) in linarith)+
  then have "1 + z\<^sup>2 \<le> 2" by simp
  moreover have "0 < 1 + z\<^sup>2" by (simp add: add_pos_nonneg)
  ultimately have "inverse 2 \<le> inverse (1 + z\<^sup>2)" by (rule le_imp_inverse_le)
  then have "1 / 2 \<le> inverse (1 + z\<^sup>2)" by simp
  then have "t * (1 / 2) \<le> t * inverse (1 + z\<^sup>2)"
    using assms(1) by (intro mult_left_mono) simp_all
  then show "t / 2 \<le> arctan t" unfolding z(3) by linarith
  have "inverse (1 + z\<^sup>2) \<le> 1" by (simp add: inverse_le_1_iff)
  then have "t * inverse (1 + z\<^sup>2) \<le> t * 1"
    using assms(1) by (intro mult_left_mono) simp_all
  then show "arctan t \<le> t" unfolding z(3) by linarith
qed

lemma pi_le_32: "pi \<le> 32 / 10"
proof -
  have b: "0 \<le> arctan (1 / 239)" by simp
  have a: "arctan (1 / 5) \<le> 1 / 5" by (rule arctan_bounds) simp_all
  have "pi / 4 = 4 * arctan (1 / 5) - arctan (1 / 239)" by (rule machin)
  with a b show ?thesis by linarith
qed

lemma sin_ge_half:
  assumes "0 < x" and "x \<le> (1::real)"
  shows "x / 2 \<le> sin x"
proof -
  have "\<exists>z. 0 < z \<and> z < x \<and> sin x - sin 0 = (x - 0) * cos z"
    using assms(1) by (intro MVT2) (auto intro: DERIV_sin)
  then obtain z :: real where z: "0 < z" "z < x" "sin x = x * cos z"
    by auto
  have "cos (pi / 3) \<le> cos z"
    using z(1,2) assms(2) pi_ge_3 by (intro cos_monotone_0_pi_le) linarith+
  then have "1 / 2 \<le> cos z" by (simp add: cos_60)
  then have "x * (1 / 2) \<le> x * cos z"
    using assms(1) by (intro mult_left_mono) simp_all
  with z(3) show ?thesis by simp
qed

lemma near_between:
  assumes "near u x y" and "0 \<le> u" and "u \<le> 1 / 10 ^ 6"
    and "L \<le> x" and "x \<le> U" and "1 / 10 ^ 100 \<le> L" and "U \<le> 10 ^ 100"
    and "L' \<le> L * (999998 / 1000000)" and "U * (1000002 / 1000000) \<le> U'"
  shows "L' \<le> y \<and> y \<le> U'"
proof -
  have pos: "(0::real) < 1 / 10 ^ 100" by simp
  with assms(4,6) have x0: "0 < x" by linarith
  have "(10::real) ^ 100 \<le> 10 ^ 300" by simp
  with assms(5,7) x0 have "\<bar>x\<bar> \<le> 10 ^ 300" by linarith
  with assms(1) have a: "\<bar>y - x\<bar> \<le> u * \<bar>x\<bar> + 1 / 10 ^ 300" by (simp add: near_def)
  from assms(3) have u': "u \<le> 1 / 1000000" by simp
  have "u * \<bar>x\<bar> \<le> (1 / 1000000) * x"
    using assms(2) u' x0 by (intro mult_mono) auto
  moreover have "(1::real) / 10 ^ 300 \<le> (1 / 1000000) * (1 / 10 ^ 100)" by simp
  moreover have "(1 / 1000000) * (1 / 10 ^ 100) \<le> (1 / 1000000) * x"
    using assms(4,6) by (intro mult_left_mono) auto
  ultimately have "\<bar>y - x\<bar> \<le> (2 / 1000000) * x" using a by linarith
  then have b: "x * (999998 / 1000000) \<le> y" "y \<le> x * (1000002 / 1000000)"
    by linarith+
  have "L * (999998 / 1000000) \<le> x * (999998 / 1000000)"
    using assms(4) by (intro mult_right_mono) simp_all
  moreover have "x * (1000002 / 1000000) \<le> U * (1000002 / 1000000)"
    using assms(5) by (intro mult_right_mono) simp_all
  ultimately show ?thesis using b assms(8,9) by linarith
qed

lemma mult_between:
  assumes "Lx \<le> x \<and> x \<le> Ux" and "Ly \<le> y \<and> y \<le> Uy" and "0 \<le> Lx" and "0 \<le> Ly"
  shows "Lx * Ly \<le> x * (y::real)" and "x * y \<le> Ux * Uy"
  using assms by (auto intro!: mult_mono)

lemma accurate_add: "accurate u fp \<Longrightarrow> near u (x + y) (fl_add fp x y)"
  by (simp add: accurate_def)

lemma accurate_sub: "accurate u fp \<Longrightarrow> near u (x - y) (fl_sub fp x y)"
  by (simp add: accurate_def)

lemma accurate_sin: "accurate u fp \<Longrightarrow> near u (sin x) (Math_sin fp x)"
  by (simp add: accurate_def)

lemma accurate_sqrt: "accurate u fp \<Longrightarrow> 0 \<le> x \<Longrightarrow> near u (sqrt x) (Math_sqrt fp x)"
  by (simp add: accurate_def)

lemma accurate_atan2:
  "accurate u fp \<Longrightarrow> 0 \<le> y \<Longrightarrow> 0 \<le> x \<Longrightarrow> near u (atan2 y x) (Math_atan2 fp y x)"
  by (simp add: accurate_def)

lemma accurate_PI: "accurate u fp \<Longrightarrow> near u pi (Math_PI fp)"
  by (simp add: accurate_def)

lemma accurate_zero:
  assumes "accurate u fp"
  shows "fl_sub fp x x = 0" and "fl_mul fp 0 y = 0" and "fl_mul fp x 0 = 0"
    and "y \<noteq> 0 \<Longrightarrow> fl_div fp 0 y = 0" and "Math_sin fp 0 = 0"
proof -
  from accurate_sub [OF assms, of x x] show "fl_sub fp x x = 0" by (simp add: near_def)
  from accurate_mul [OF assms, of 0 y] show "fl_mul fp 0 y = 0" by (simp add: near_def)
  from accurate_mul [OF assms, of x 0] show "fl_mul fp x 0 = 0" by (simp add: near_def)
  from accurate_sin [OF assms, of 0] show "Math_sin fp 0 = 0" by (simp add: near_def)
  show "fl_div fp 0 y = 0" if "y \<noteq> 0"
    using accurate_div [OF assms that, of 0] by (simp add: near_def)
qed

lemma greatCircleMiles_short_hop:
  assumes acc: "accurate u fp" and u: "0 \<le> u" "u \<le> 1 / 10 ^ 6"
    and hop: "lat2 - lat1 = 62 / 100000"
  shows "1 / 1000 \<le> greatCircleMiles fp lat1 lon lat2 lon \<and>
         greatCircleMiles fp lat1 lon lat2 lon \<le> 46 / 1000"
proof -
  let ?d = "fl_sub fp lat2 lat1"
  let ?PI = "Math_PI fp"
  let ?k = "fl_div fp ?PI 180"
  let ?rad = "fl_mul fp ?d ?k"
  let ?half = "fl_div fp ?rad 2"
  let ?s = "Math_sin fp ?half"
  let ?p = "fl_mul fp ?s ?s"
  let ?a = "fl_add fp ?p 0"
  let ?y = "Math_sqrt fp ?a"
  let ?om = "fl_sub fp 1 ?a"
  let ?x = "Math_sqrt fp ?om"
  let ?at = "Math_atan2 fp ?y ?x"
  let ?c = "fl_mul fp 2 ?at"
  let ?H = "fl_mul fp 3959 ?c"
  note z = accurate_zero [OF acc]
  have eq: "greatCircleMiles fp lat1 lon lat2 lon = ?H"
    by (simp add: greatCircleMiles_def toRad_def Let_def z)
  have "near u (lat2 - lat1) ?d" by (rule accurate_sub [OF acc])
  then have nd: "near u (62 / 100000) ?d" by (simp only: hop)
  have d: "6 / 10000 \<le> ?d \<and> ?d \<le> 621 / 1000000"
    by (rule near_between [OF nd u, where L = "62 / 100000" and U = "62 / 100000"]) simp_all
  have PI: "29 / 10 \<le> ?PI \<and> ?PI \<le> 321 / 100"
    by (rule near_between [OF accurate_PI [OF acc] u pi_ge_3 pi_le_32]) simp_all
  have k: "16 / 1000 \<le> ?k \<and> ?k \<le> 179 / 10000"
  proof (rule near_between [OF accurate_div [OF acc] u])
    show "29 / 10 / 180 \<le> ?PI / 180" "?PI / 180 \<le> 321 / 100 / 180" using PI by simp_all
  qed simp_all
  have rad: "9 / 1000000 \<le> ?rad \<and> ?rad \<le> 112 / 10000000"
    by (rule near_between [OF accurate_mul [OF acc] u mult_between [OF d k]]) simp_all
  have half: "4 / 1000000 \<le> ?half \<and> ?half \<le> 561 / 100000000"
  proof (rule near_between [OF accurate_div [OF acc] u])
    show "9 / 1000000 / 2 \<le> ?rad / 2" "?rad / 2 \<le> 112 / 10000000 / 2" using rad by simp_all
  qed simp_all
  have s: "1 / 1000000 \<le> ?s \<and> ?s \<le> 562 / 100000000"
  proof (rule near_between [OF accurate_sin [OF acc] u])
    have "?half / 2 \<le> sin ?half" by (rule sin_ge_half) (use half in linarith)+
    with half show "2 / 1000000 \<le> sin ?half" by linarith
    have "sin ?half \<le> ?half" by (rule sin_x_le_x) (use half in linarith)
    with half show "sin ?half \<le> 561 / 100000000" by linarith
  qed simp_all
  have p: "9 / 10000000000000 \<le> ?p \<and> ?p \<le> 316 / 10000000000000"
    by (rule near_between [OF accurate_mul [OF acc] u mult_between [OF s s]]) simp_all
  have a: "8 / 10000000000000 \<le> ?a \<and> ?a \<le> 317 / 10000000000000"
  proof (rule near_between [OF accurate_add [OF acc] u])
    show "9 / 10000000000000 \<le> ?p + 0" "?p + 0 \<le> 316 / 10000000000000" using p by simp_all
  qed simp_all
  have a0: "0 \<le> ?a" using a by linarith
  have y: "7 / 10000000 \<le> ?y \<and> ?y \<le> 565 / 100000000"
  proof (rule near_between [OF accurate_sqrt [OF acc a0] u])
    have "(8 / 10000000)\<^sup>2 \<le> ?a" using a by (simp add: power2_eq_square)
    then show "8 / 10000000 \<le> sqrt ?a" by (rule real_le_rsqrt)
    have "?a \<le> (564 / 100000000)\<^sup>2" using a by (simp add: power2_eq_square)
    then show "sqrt ?a \<le> 564 / 100000000" by (intro real_le_lsqrt) simp_all
  qed simp_all
  have om: "99 / 100 \<le> ?om \<and> ?om \<le> 101 / 100"
  proof (rule near_between [OF accurate_sub [OF acc] u])
    show "999 / 1000 \<le> 1 - ?a" "1 - ?a \<le> 1" using a by linarith+
  qed simp_all
  have om0: "0 \<le> ?om" using om by linarith
  have x: "98 / 100 \<le> ?x \<and> ?x \<le> 102 / 100"
  proof (rule near_between [OF accurate_sqrt [OF acc om0] u])
    have "(99 / 100)\<^sup>2 \<le> ?om" using om by (simp add: power2_eq_square)
    then show "99 / 100 \<le> sqrt ?om" by (rule real_le_rsqrt)
    have "?om \<le> (101 / 100)\<^sup>2" using om by (simp add: power2_eq_square)
    then show "sqrt ?om \<le> 101 / 100" by (intro real_le_lsqrt) simp_all
  qed simp_all
  have x0: "0 < ?x" using x by linarith
  have y0: "0 \<le> ?y" using y by linarith
  define t where "t = ?y / ?x"
  have t: "6 / 10000000 \<le> t" "t \<le> 577 / 100000000"
    unfolding t_def using x y
    by (simp_all add: pos_le_divide_eq [OF x0] pos_divide_le_eq [OF x0])
  have at2: "atan2 ?y ?x = arctan t" using x0 by (simp add: atan2_def t_def)
  have at: "2 / 10000000 \<le> ?at \<and> ?at \<le> 578 / 100000000"
  proof (rule near_between [OF accurate_atan2 [OF acc y0 less_imp_le [OF x0]] u])
    have "t / 2 \<le> arctan t" by (rule arctan_bounds) (use t in linarith)+
    with t show "3 / 10000000 \<le> atan2 ?y ?x" unfolding at2 by linarith
    have "arctan t \<le> t" by (rule arctan_bounds) (use t in linarith)+
    with t show "atan2 ?y ?x \<le> 577 / 100000000" unfolding at2 by linarith
  qed simp_all
  have c: "3 / 10000000 \<le> ?c \<and> ?c \<le> 116 / 10000000"
  proof (rule near_between [OF accurate_mul [OF acc] u])
    show "4 / 10000000 \<le> 2 * ?at" "2 * ?at \<le> 1156 / 100000000" using at by linarith+
  qed simp_all
  have H: "1 / 1000 \<le> ?H \<and> ?H \<le> 46 / 1000"
  proof (rule near_between [OF accurate_mul [OF acc] u])
    show "11877 / 10000000 \<le> 3959 * ?c" "3959 * ?c \<le> 459244 / 10000000" using c by linarith+
  qed simp_all
  show ?thesis unfolding eq by (rule H)
qed

lemma getDistanceAndTime_short_hop:
  assumes acc: "accurate u fp" and u: "0 \<le> u" "u \<le> 1 / 10 ^ 6"
    and hop: "lat2 - lat1 = 62 / 100000"
  shows "MapsService_getDistanceAndTime fp coordinateGeocode (lat1, lon) (lat2, lon)
           = Inr \<lparr> distance = 0, duration = 0 \<rparr>"
proof -
  let ?H = "greatCircleMiles fp lat1 lon lat2 lon"
  note z = accurate_zero [OF acc]
  from greatCircleMiles_short_hop [OF acc u hop]
  have H: "1 / 1000 \<le> ?H \<and> ?H \<le> 46 / 1000" .
  have T: "9 / 1000 \<le> fl_mul fp ?H 10 \<and> fl_mul fp ?H 10 \<le> 47 / 100"
  proof (rule near_between [OF accurate_mul [OF acc] u])
    show "1 / 100 \<le> ?H * 10" "?H * 10 \<le> 46 / 100" using H by linarith+
  qed simp_all
  then have "Math_round (fl_mul fp ?H 10) = 0"
    unfolding Math_round_def by (intro floor_unique) (simp, linarith)
  then have "calculateStraightLineDistance fp lat1 lon lat2 lon = 0"
    by (simp add: calculateStraightLineDistance_greatCircleMiles z)
  then show ?thesis
    by (simp add: MapsService_getDistanceAndTime_def coordinateGeocode_def Let_def z
        Math_round_def Math_ceil_def averageSpeedMph_def)
qed

lemma accurate_exactArithmetic: "accurate 0 exactArithmetic"
  by (simp add: accurate_def near_def exactArithmetic_def)

lemma greatCircleMiles_exactArithmetic:
  "greatCircleMiles exactArithmetic lat1 lon1 lat2 lon2 = haversineMiles lat1 lon1 lat2 lon2"
  by (simp add: greatCircleMiles_def haversineMiles_def toRad_def radians_def exactArithmetic_def
      Let_def power2_eq_square mult.assoc)

lemma haversineMiles_same_meridian:
  assumes "0 \<le> x" and "x < 180"
  shows "haversineMiles la lo (la + x) lo = 3959 * radians x"
proof -
  let ?h = "radians x / 2"
  have h: "0 \<le> ?h" "?h < pi / 2"
    using assms by (simp_all add: radians_def)
  have c: "0 < cos ?h"
    using h by (intro cos_gt_zero_pi) (auto intro: less_le_trans [of _ 0])
  have s: "0 \<le> sin ?h"
    using h by (intro sin_ge_zero) auto
  have "1 - (sin ?h)\<^sup>2 = (cos ?h)\<^sup>2"
    using sin_cos_squared_add [of ?h] by linarith
  then have sq: "sqrt (1 - (sin ?h)\<^sup>2) = cos ?h"
    using c by simp
  have "atan2 (sin ?h) (cos ?h) = arctan (tan ?h)"
    using c by (simp add: atan2_def tan_def)
  also have "\<dots> = ?h"
    using h by (intro arctan_tan) auto
  finally have at: "atan2 (sin ?h) (cos ?h) = ?h" .
  have a: "(sin (radians (la + x - la) / 2))\<^sup>2 +
           cos (radians la) * cos (radians (la + x)) * (sin (radians (lo - lo) / 2))\<^sup>2
             = (sin ?h)\<^sup>2"
    by (simp add: radians_def)
  have rt: "sqrt ((sin ?h)\<^sup>2) = sin ?h"
    using s by simp
  show ?thesis
    unfolding haversineMiles_def Let_def a rt sq at by simp
qed

lemma haversineMiles_example:
  "haversineMiles (426334 / 10000) (- (713162 / 10000)) (4263402 / 100000) (- (713162 / 10000))
     = 3959 * (62 / 100000 * (pi / 180))"
  using haversineMiles_same_meridian [of "62 / 100000" "426334 / 10000" "- (713162 / 10000)"]
  by (simp add: radians_def)

lemma haversineMiles_example_bounds:
  "4 / 100 \<le> haversineMiles (426334 / 10000) (- (713162 / 10000))
                (4263402 / 100000) (- (713162 / 10000))"
  "haversineMiles (426334 / 10000) (- (713162 / 10000))
     (4263402 / 100000) (- (713162 / 10000)) < 5 / 100"
  unfolding haversineMiles_example using pi_ge_3 pi_le_32 by simp_all

text \<open>
  C6 (as amended). For every pair of points the geocoder resolves and whose computed
  great-circle separation is a number (between 0 and 25000 miles), in any arithmetic
  accurate to one part in \<open>10^12\<close>, double precision among them: the straight-line
  distance is the computed haversine separation rounded to one decimal place, the
  driving distance is that value times 1.25, the reported distance is the driving
  distance rounded to one decimal place again, and the reported duration is the driving
  distance before its final rounding, divided by 35 mph, in minutes, rounded up, each
  step carried out by the machine. Hence the reported distance is within 0.05 miles of
  1.25 times the once-rounded separation and within 0.1125 miles of 1.25 times the
  computed separation, and the reported duration is at least the minutes that 1.25
  times the once-rounded separation takes at 35 mph and less than one minute more, all
  up to a rounding error below \<open>10^-5\<close>.
\<close>

theorem getDistanceAndTime_rounds_twice:
  assumes "geocode origin = Inr originCoords"
    and "geocode destination = Inr destCoords"
    and "accurate u fp" and "0 \<le> u" and "u \<le> 1 / 10 ^ 12"
    and "0 \<le> greatCircleMiles fp (lat originCoords) (lng originCoords)
                 (lat destCoords) (lng destCoords)"
    and "greatCircleMiles fp (lat originCoords) (lng originCoords)
           (lat destCoords) (lng destCoords) \<le> 25000"
  shows "\<exists>r separation drivingDistance.
           separation = calculateStraightLineDistance fp (lat originCoords) (lng originCoords)
                          (lat destCoords) (lng destCoords) \<and>
           separation = fl_div fp (of_int (Math_round (fl_mul fp
                          (greatCircleMiles fp (lat originCoords) (lng originCoords)
                             (lat destCoords) (lng destCoords)) 10))) 10 \<and>
           drivingDistance = fl_mul fp separation (125 / 100) \<and>
           MapsService_getDistanceAndTime fp geocode origin destination = Inr r \<and>
           distance r = fl_div fp (of_int (Math_round (fl_mul fp drivingDistance 10))) 10 \<and>
           duration r = Math_ceil (fl_mul fp (fl_div fp drivingDistance 35) 60) \<and>
           \<bar>separation - greatCircleMiles fp (lat originCoords) (lng originCoords)
                             (lat destCoords) (lng destCoords)\<bar> \<le> 1 / 20 + 1 / 10 ^ 6 \<and>
           \<bar>distance r - separation * (125 / 100)\<bar> \<le> 1 / 20 + 1 / 10 ^ 6 \<and>
           \<bar>distance r - greatCircleMiles fp (lat originCoords) (lng originCoords)
                             (lat destCoords) (lng destCoords) * (125 / 100)\<bar>
             \<le> 9 / 80 + 1 / 10 ^ 5 \<and>
           separation * (125 / 100) / 35 * 60 - 1 / 10 ^ 6 \<le> of_int (duration r) \<and>
           of_int (duration r) < separation * (125 / 100) / 35 * 60 + 1 + 1 / 10 ^ 6"
proof -
  let ?H = "greatCircleMiles fp (lat originCoords) (lng originCoords)
              (lat destCoords) (lng destCoords)"
  let ?s = "calculateStraightLineDistance fp (lat originCoords) (lng originCoords)
              (lat destCoords) (lng destCoords)"
  let ?D = "fl_mul fp ?s (125 / 100)"
  let ?dist = "fl_div fp (of_int (Math_round (fl_mul fp ?D 10))) 10"
  let ?Q = "fl_div fp ?D 35"
  let ?M = "fl_mul fp ?Q 60"
  let ?r = "\<lparr> distance = ?dist, duration = Math_ceil ?M \<rparr>"
  note acc = assms(3) and u = assms(4,5)
  have s_def: "?s = fl_div fp (of_int (Math_round (fl_mul fp ?H 10))) 10"
    by (rule calculateStraightLineDistance_greatCircleMiles)
  have r: "MapsService_getDistanceAndTime fp geocode origin destination = Inr ?r"
    using assms(1,2)
    by (simp add: MapsService_getDistanceAndTime_def Let_def averageSpeedMph_def)
  have "\<bar>?H\<bar> \<le> 40000" using assms(6,7) by simp
  from roundTenth_machine [OF acc u this]
  have sH: "\<bar>?s - ?H\<bar> \<le> 1 / 20 + 1 / 10000000"
    unfolding s_def .
  with assms(6,7) have "\<bar>?s * (125 / 100)\<bar> \<le> 31252" by linarith
  from near_error [OF accurate_mul [OF acc] u this]
  have D: "\<bar>?D - ?s * (125 / 100)\<bar> \<le> 31253 / 1000000000000" by simp
  with sH assms(6,7) have Db: "\<bar>?D\<bar> \<le> 31253" by linarith
  then have "\<bar>?D\<bar> \<le> 40000" by linarith
  from roundTenth_machine [OF acc u this]
  have distD: "\<bar>?dist - ?D\<bar> \<le> 1 / 20 + 1 / 10000000" .
  from Db have "\<bar>?D / 35\<bar> \<le> 893" by simp
  from near_error [OF accurate_div [OF acc] u this]
  have Q: "\<bar>?Q - ?D / 35\<bar> \<le> 894 / 1000000000000" by simp
  with Db have "\<bar>?Q * 60\<bar> \<le> 53600" by linarith
  from near_error [OF accurate_mul [OF acc] u this]
  have M: "\<bar>?M - ?Q * 60\<bar> \<le> 53601 / 1000000000000" by simp
  have c: "?M \<le> of_int (Math_ceil ?M)" "of_int (Math_ceil ?M) < ?M + 1"
    unfolding Math_ceil_def by linarith+
  have p: "(1 :: real) / 10 ^ 6 = 1 / 1000000" "(1 :: real) / 10 ^ 5 = 1 / 100000" by simp_all
  have b1: "\<bar>?s - ?H\<bar> \<le> 1 / 20 + 1 / 10 ^ 6" using sH p by linarith
  have b2: "\<bar>?dist - ?s * (125 / 100)\<bar> \<le> 1 / 20 + 1 / 10 ^ 6" using distD D p by linarith
  have b3: "\<bar>?dist - ?H * (125 / 100)\<bar> \<le> 9 / 80 + 1 / 10 ^ 5" using distD D sH p by linarith
  have b4: "?s * (125 / 100) / 35 * 60 - 1 / 10 ^ 6 \<le> of_int (Math_ceil ?M)"
    using c(1) M Q D p by linarith
  have b5: "of_int (Math_ceil ?M) < ?s * (125 / 100) / 35 * 60 + 1 + 1 / 10 ^ 6"
    using c(2) M Q D p by linarith
  show ?thesis
    by (intro exI [where x = ?r] exI [where x = ?s] exI [where x = ?D] conjI)
       (simp_all only: r s_def [symmetric] b1 b2 b3 b4 b5 distance_result.simps refl)
qed

theorem getDistanceAndTime_rounds_twice_witness:
  "coordinateGeocode (426334 / 10000, - (713162 / 10000))
     = Inr \<lparr> lat = 426334 / 10000, lng = - (713162 / 10000), formatted_address = [] \<rparr> \<and>
   coordinateGeocode (4263402 / 100000, - (713162 / 10000))
     = Inr \<lparr> lat = 4263402 / 100000, lng = - (713162 / 10000), formatted_address = [] \<rparr> \<and>
   accurate 0 exactArithmetic \<and>
   0 \<le> greatCircleMiles exactArithmetic (426334 / 10000) (- (713162 / 10000))
          (4263402 / 100000) (- (713162 / 10000)) \<and>
   greatCircleMiles exactArithmetic (426334 / 10000) (- (713162 / 10000))
     (4263402 / 100000) (- (713162 / 10000)) \<le> 25000 \<and>
   (\<exists>r. MapsService_getDistanceAndTime exactArithmetic coordinateGeocode
          (426334 / 10000, - (713162 / 10000)) (4263402 / 100000, - (713162 / 10000)) = Inr r \<and>
        \<bar>distance r - greatCircleMiles exactArithmetic (426334 / 10000) (- (713162 / 10000))
                         (4263402 / 100000) (- (713162 / 10000)) * (125 / 100)\<bar>
          \<le> 9 / 80 + 1 / 10 ^ 5)"
proof -
  let ?o = "\<lparr> lat = 426334 / 10000, lng = - (713162 / 10000), formatted_address = [] \<rparr>"
  let ?d = "\<lparr> lat = 4263402 / 100000, lng = - (713162 / 10000), formatted_address = [] \<rparr>"
  let ?H = "greatCircleMiles exactArithmetic (426334 / 10000) (- (713162 / 10000))
              (4263402 / 100000) (- (713162 / 10000))"
  have o: "coordinateGeocode (426334 / 10000, - (713162 / 10000)) = Inr ?o"
    unfolding coordinateGeocode_def by simp
  have d: "coordinateGeocode (4263402 / 100000, - (713162 / 10000)) = Inr ?d"
    unfolding coordinateGeocode_def by simp
  have lo: "0 \<le> ?H" and hi: "?H \<le> 25000"
    unfolding greatCircleMiles_exactArithmetic using haversineMiles_example_bounds by linarith+
  have lo': "0 \<le> greatCircleMiles exactArithmetic (lat ?o) (lng ?o) (lat ?d) (lng ?d)"
    and hi': "greatCircleMiles exactArithmetic (lat ?o) (lng ?o) (lat ?d) (lng ?d) \<le> 25000"
    using lo hi by (simp_all only: location.simps)
  have u: "(0::real) \<le> 0" "(0::real) \<le> 1 / 10 ^ 12" by simp_all
  from getDistanceAndTime_rounds_twice
         [where geocode = coordinateGeocode
            and origin = "(426334 / 10000, - (713162 / 10000))"
            and destination = "(4263402 / 100000, - (713162 / 10000))",
          OF o d accurate_exactArithmetic u lo' hi']
  obtain r where r: "MapsService_getDistanceAndTime exactArithmetic coordinateGeocode
          (426334 / 10000, - (713162 / 10000)) (4263402 / 100000, - (713162 / 10000)) = Inr r"
      "\<bar>distance r - greatCircleMiles exactArithmetic (lat ?o) (lng ?o) (lat ?d) (lng ?d)
           * (125 / 100)\<bar> \<le> 9 / 80 + 1 / 10 ^ 5"
    by blast
  from r(2) have "\<bar>distance r - ?H * (125 / 100)\<bar> \<le> 9 / 80 + 1 / 10 ^ 5"
    by (simp only: location.simps)
  with r(1) have e: "\<exists>r. MapsService_getDistanceAndTime exactArithmetic coordinateGeocode
          (426334 / 10000, - (713162 / 10000)) (4263402 / 100000, - (713162 / 10000)) = Inr r \<and>
        \<bar>distance r - ?H * (125 / 100)\<bar> \<le> 9 / 80 + 1 / 10 ^ 5"
    by blast
  show ?thesis
    by (intro conjI o d accurate_exactArithmetic lo hi e)
qed

text \<open>
  C6, the claim as worded, fails: for two points 0.00062 degrees of latitude apart
  (about 0.043 miles) the service reports 0 miles and 0 minutes, because the separation
  is rounded to 0.0 before it is multiplied; 1.25 times the separation rounds to 0.1
  miles, and 0.1 miles at 35 mph rounds up to 1 minute. The service's answer is the
  same in every arithmetic accurate to one part in a million
  (\<open>getDistanceAndTime_short_hop\<close>); it is stated here for exact arithmetic.
\<close>

theorem getDistanceAndTime_double_rounding:
  "MapsService_getDistanceAndTime exactArithmetic coordinateGeocode
       (426334 / 10000, - (713162 / 10000)) (4263402 / 100000, - (713162 / 10000))
     = Inr \<lparr> distance = 0, duration = 0 \<rparr> \<and>
   spec_distance (426334 / 10000) (- (713162 / 10000)) (4263402 / 100000) (- (713162 / 10000))
     = 1 / 10 \<and>
   spec_duration (426334 / 10000) (- (713162 / 10000)) (4263402 / 100000) (- (713162 / 10000))
     = 1"
proof -
  let ?h = "haversineMiles (426334 / 10000) (- (713162 / 10000))
              (4263402 / 100000) (- (713162 / 10000))"
  note b = haversineMiles_example_bounds
  have "\<lfloor>?h * (125 / 100) * 10 + 1 / 2\<rfloor> = 1"
    using b by (simp add: floor_eq_iff)
  then have tenth: "spec_distance (426334 / 10000) (- (713162 / 10000))
                      (4263402 / 100000) (- (713162 / 10000)) = 1 / 10"
    by (simp add: spec_distance_def roundToTenth_def)
  have minute: "spec_duration (426334 / 10000) (- (713162 / 10000))
                  (4263402 / 100000) (- (713162 / 10000)) = 1"
    unfolding spec_duration_def tenth by (simp add: ceiling_eq_iff)
  have u: "(0::real) \<le> 0" "(0::real) \<le> 1 / 10 ^ 6" by simp_all
  have hop: "(4263402 / 100000 :: real) - 426334 / 10000 = 62 / 100000" by simp
  have "MapsService_getDistanceAndTime exactArithmetic coordinateGeocode
          (426334 / 10000, - (713162 / 10000)) (4263402 / 100000, - (713162 / 10000))
        = Inr \<lparr> distance = 0, duration = 0 \<rparr>"
    by (rule getDistanceAndTime_short_hop [OF accurate_exactArithmetic u hop])
  with tenth minute show ?thesis by simp
qed

end
